theory Spec2Isabelle
  imports Complex_Main "HOL-Library.Word"
begin

section \<open>JavaScript values\<close>

text \<open>
  A JavaScript string is a sequence of 16-bit code units. The regular expressions of
  \<^verbatim>\<open>src/app/actions.tsx\<close> carry no \<^verbatim>\<open>u\<close> flag, so they match code unit by
  code unit.
\<close>

type_synonym codeunit = "16 word"
type_synonym jstring = "codeunit list"

definition u16 :: "string \<Rightarrow> jstring" where
  "u16 s = map (\<lambda>c. of_nat (of_char c)) s"

text \<open>
  A number is a double: not-a-number, an infinity (the flag is the sign), or a finite
  value. Only its truthiness is used below.
\<close>

datatype jsnum = NaN | Infinity bool | Fin rat

text \<open>
  The values that \<^verbatim>\<open>JSON.parse\<close> returns, and \<^verbatim>\<open>undefined\<close>, which a missing
  property reads as. An object is the list of its own properties.
\<close>

datatype jsval =
    Undefined
  | Null
  | Bool bool
  | Num jsnum
  | Str jstring
  | Arr "jsval list"
  | Obj "(jstring \<times> jsval) list"

text \<open>
  Where the engine throws: reading a property of \<^verbatim>\<open>null\<close> or \<^verbatim>\<open>undefined\<close>,
  calling a method that the value does not have, iterating a value that is not iterable,
  destructuring \<^verbatim>\<open>null\<close> or \<^verbatim>\<open>undefined\<close>, converting an invalid date,
  parsing a text that is no JSON.
\<close>

datatype site =
    Reading jsval jstring
  | Calling jsval jstring
  | Iterating jsval
  | Destructuring jsval
  | InvalidDate jsval
  | Parsing jstring

text \<open>
  What a \<^verbatim>\<open>catch\<close> can receive: an error of the engine, thrown at a site, or the
  rejection of a collaborator, which can be any value.
\<close>

datatype thrown =
    TypeError site
  | RangeError site
  | SyntaxError site
  | Rejected jsval

fun truthy :: "jsval \<Rightarrow> bool" where
  "truthy Undefined = False"
| "truthy Null = False"
| "truthy (Bool b) = b"
| "truthy (Num n) = (n \<noteq> NaN \<and> n \<noteq> Fin 0)"
| "truthy (Str s) = (s \<noteq> [])"
| "truthy (Arr _) = True"
| "truthy (Obj _) = True"

text \<open>
  \<^verbatim>\<open>v.k\<close>: a \<^verbatim>\<open>TypeError\<close> on \<^verbatim>\<open>null\<close> and \<^verbatim>\<open>undefined\<close>; an own property of an
  object; \<^verbatim>\<open>undefined\<close> otherwise. The keys read in this program (\<^verbatim>\<open>start_time\<close>,
  \<^verbatim>\<open>event_id\<close>, \<^verbatim>\<open>items\<close>, ...) are no properties of the prototypes of strings,
  numbers, booleans or arrays.
\<close>

fun get_prop :: "jsval \<Rightarrow> jstring \<Rightarrow> thrown + jsval" where
  "get_prop Undefined k = Inl (TypeError (Reading Undefined k))"
| "get_prop Null k = Inl (TypeError (Reading Null k))"
| "get_prop (Obj kvs) k = Inr (case map_of kvs k of None \<Rightarrow> Undefined | Some v \<Rightarrow> v)"
| "get_prop _ k = Inr Undefined"

text \<open>\<^verbatim>\<open>v?.k\<close>\<close>

fun oprop :: "jsval \<Rightarrow> jstring \<Rightarrow> jsval" where
  "oprop (Obj kvs) k = (case map_of kvs k of None \<Rightarrow> Undefined | Some v \<Rightarrow> v)"
| "oprop _ k = Undefined"

text \<open>\<^verbatim>\<open>a || b\<close>\<close>

definition jor :: "jsval \<Rightarrow> jsval \<Rightarrow> jsval" where
  "jor a b = (if truthy a then a else b)"

section \<open>Regular expressions\<close>

text \<open>
  The fragment of regular expressions that the patterns of the clarification gate use:
  a class of code units, sequence, alternation, and one or more repetitions of a class.
\<close>

datatype rx =
    Eps
  | Cls "codeunit \<Rightarrow> bool"
  | Seq rx rx
  | Alt rx rx
  | Plus "codeunit \<Rightarrow> bool"

text \<open>All the ways of consuming one or more code units of a class from the front.\<close>

fun plus_rems :: "(codeunit \<Rightarrow> bool) \<Rightarrow> jstring \<Rightarrow> jstring list" where
  "plus_rems P [] = []"
| "plus_rems P (c # cs) = (if P c then cs # plus_rems P cs else [])"

text \<open>The remainders that a match of the expression at the front of the input can leave.\<close>

fun rems :: "rx \<Rightarrow> jstring \<Rightarrow> jstring list" where
  "rems Eps s = [s]"
| "rems (Cls P) s = (case s of [] \<Rightarrow> [] | c # cs \<Rightarrow> if P c then [cs] else [])"
| "rems (Seq a b) s = concat (map (rems b) (rems a s))"
| "rems (Alt a b) s = rems a s @ rems b s"
| "rems (Plus P) s = plus_rems P s"

text \<open>
  \<^verbatim>\<open>p.test(s)\<close> for an expression without the \<^verbatim>\<open>g\<close> and \<^verbatim>\<open>y\<close> flags: a match
  starting at some index of the input.
\<close>

fun test :: "rx \<Rightarrow> jstring \<Rightarrow> bool" where
  "test r [] = (rems r [] \<noteq> [])"
| "test r (c # cs) = (rems r (c # cs) \<noteq> [] \<or> test r cs)"

text \<open>
  Canonicalisation under the \<^verbatim>\<open>i\<close> flag (without \<^verbatim>\<open>u\<close>): a code unit is compared by
  its upper case, and a code unit outside ASCII never canonicalises into ASCII. The
  patterns with the flag are ASCII, so only the ASCII part of the mapping is needed.
\<close>

definition canonicalize :: "codeunit \<Rightarrow> codeunit" where
  "canonicalize c = (if 0x61 \<le> c \<and> c \<le> 0x7A then c - 0x20 else c)"

text \<open>A literal, case sensitive.\<close>

fun lit :: "jstring \<Rightarrow> rx" where
  "lit [] = Eps"
| "lit (c # cs) = Seq (Cls (\<lambda>x. x = c)) (lit cs)"

text \<open>An ASCII literal under the \<^verbatim>\<open>i\<close> flag.\<close>

fun lit_i :: "jstring \<Rightarrow> rx" where
  "lit_i [] = Eps"
| "lit_i (c # cs) = Seq (Cls (\<lambda>x. canonicalize x = canonicalize c)) (lit_i cs)"

text \<open>\<^verbatim>\<open>\s\<close>: white space and line terminators.\<close>

definition is_space :: "codeunit \<Rightarrow> bool" where
  "is_space c \<longleftrightarrow>
     c \<in> {0x09, 0x0A, 0x0B, 0x0C, 0x0D, 0x20, 0xA0, 0x1680, 0x2028, 0x2029, 0x202F,
          0x205F, 0x3000, 0xFEFF}
     \<or> (0x2000 \<le> c \<and> c \<le> 0x200A)"

text \<open>\<^verbatim>\<open>patterns.some((p) => p.test(question))\<close>\<close>

definition some_test :: "rx list \<Rightarrow> jstring \<Rightarrow> bool" where
  "some_test ps q = list_ex (\<lambda>p. test p q) ps"

section \<open>Tool calls and their arguments\<close>

text \<open>\<^verbatim>\<open>ToolCallLike\<close>, the field \<^verbatim>\<open>function\<close> is \<open>fn\<close> here, \<^verbatim>\<open>id\<close> is \<open>call_id\<close>.\<close>

record fn_call =
  name :: jstring
  arguments :: "jstring option"

record tool_call =
  call_id :: "jstring option"
  fn :: fn_call

text \<open>
  \<^verbatim>\<open>parseArgs\<close>. \<^verbatim>\<open>JSON.parse\<close> is a parameter: \<open>None\<close> is its \<^verbatim>\<open>SyntaxError\<close>.
\<close>

definition parseArgs :: "(jstring \<Rightarrow> jsval option) \<Rightarrow> jstring option \<Rightarrow> jsval" where
  "parseArgs json_parse args =
     (case args of
        None \<Rightarrow> Obj []
      | Some s \<Rightarrow>
          if s = [] then Obj []
          else (case json_parse s of None \<Rightarrow> Obj [] | Some v \<Rightarrow> v))"

section \<open>The clarification gate\<close>

definition mutation_names :: "jstring list" where
  "mutation_names = [u16 ''schedule_event'', u16 ''edit_event'', u16 ''delete_event'']"

definition noActionPatterns :: "rx list" where
  "noActionPatterns =
     [lit [0x5148, 0x4E0D, 0x8981, 0x64CD, 0x4F5C],
      lit [0x5148, 0x522B, 0x64CD, 0x4F5C],
      lit [0x5148, 0x4E0D, 0x8981, 0x5B89, 0x6392],
      lit [0x5148, 0x4E0D, 0x8981, 0x521B, 0x5EFA],
      lit [0x5148, 0x4E0D, 0x521B, 0x5EFA],
      lit [0x4E0D, 0x8981, 0x6267, 0x884C],
      lit [0x5148, 0x548C, 0x6211, 0x4E92, 0x52A8],
      Seq (lit_i (u16 ''don'' @ [0x27] @ u16 ''t''))
       (Seq (Plus is_space)
         (Alt (lit_i (u16 ''operate''))
           (Alt (lit_i (u16 ''execute''))
             (Alt (lit_i (u16 ''schedule''))
               (Alt (lit_i (u16 ''book'')) (lit_i (u16 ''create'')))))))]"

definition schedulingIntentPatterns :: "rx list" where
  "schedulingIntentPatterns =
     [lit [0x5B89, 0x6392],
      lit [0x9884, 0x7EA6],
      lit_i (u16 ''schedule''),
      lit_i (u16 ''book''),
      lit [0x590D, 0x4E60],
      lit [0x51C6, 0x5907, 0x9762, 0x8BD5],
      lit [0x9762, 0x8BD5, 0x51C6, 0x5907]]"

definition ambiguousPatterns :: "rx list" where
  "ambiguousPatterns =
     [lit [0x5DE6, 0x53F3],
      lit [0x6700, 0x8FD1],
      lit [0x672A, 0x6765, 0x8FD9, 0x6BB5, 0x65F6, 0x95F4],
      lit [0x8FD9, 0x6BB5, 0x65F6, 0x95F4],
      lit [0x6709, 0x7A7A],
      lit [0x62BD, 0x65F6, 0x95F4],
      lit [0x5927, 0x6982],
      lit [0x5DEE, 0x4E0D, 0x591A],
      lit_i (u16 ''around''),
      lit_i (u16 ''sometime''),
      lit_i (u16 ''soon'')]"

text \<open>
  \<^verbatim>\<open>Boolean(args.k1 && ... && args.kn)\<close>: the reads from left to right, up to the
  first falsy value.
\<close>

fun all_truthy :: "jsval \<Rightarrow> jstring list \<Rightarrow> thrown + bool" where
  "all_truthy args [] = Inr True"
| "all_truthy args (k # ks) =
     (case get_prop args k of
        Inl e \<Rightarrow> Inl e
      | Inr v \<Rightarrow> if truthy v then all_truthy args ks else Inr False)"

text \<open>The callback of \<^verbatim>\<open>executableToolCalls.every\<close>.\<close>

definition sufficientArgs :: "(jstring \<Rightarrow> jsval option) \<Rightarrow> tool_call \<Rightarrow> thrown + bool" where
  "sufficientArgs json_parse toolCall =
     (let nm = name (fn toolCall);
          args = parseArgs json_parse (arguments (fn toolCall))
      in if nm = u16 ''schedule_event'' then
           all_truthy args [u16 ''start_time'', u16 ''end_time'', u16 ''summary'']
         else if nm = u16 ''edit_event'' then
           all_truthy args
             [u16 ''event_id'', u16 ''start_time'', u16 ''end_time'', u16 ''summary'']
         else if nm = u16 ''delete_event'' then
           all_truthy args [u16 ''event_id'']
         else Inr True)"

text \<open>
  \<^verbatim>\<open>Array.prototype.every\<close>: in order, stopping at the first \<^verbatim>\<open>false\<close> and at the
  first exception.
\<close>

fun every :: "('a \<Rightarrow> thrown + bool) \<Rightarrow> 'a list \<Rightarrow> thrown + bool" where
  "every f [] = Inr True"
| "every f (x # xs) =
     (case f x of
        Inl e \<Rightarrow> Inl e
      | Inr b \<Rightarrow> if b then every f xs else Inr False)"

text \<open>
  \<^verbatim>\<open>shouldAskClarificationBeforeMutation\<close>. \<open>Inl\<close> is an exception thrown out of the
  function.
\<close>

definition shouldAskClarificationBeforeMutation ::
  "(jstring \<Rightarrow> jsval option) \<Rightarrow> jstring \<Rightarrow> 'r option \<Rightarrow> tool_call list \<Rightarrow> thrown + bool"
where
  "shouldAskClarificationBeforeMutation json_parse question extractedRange executableToolCalls =
     (let toolNames = map (\<lambda>call. name (fn call)) executableToolCalls;
          hasMutationTool = list_ex (\<lambda>nm. nm \<in> set mutation_names) toolNames
      in if \<not> hasMutationTool then Inr False
         else if some_test noActionPatterns question then Inr True
         else
           (case every (sufficientArgs json_parse) executableToolCalls of
              Inl e \<Rightarrow> Inl e
            | Inr hasSufficientMutationArgs \<Rightarrow>
                if hasSufficientMutationArgs then Inr False
                else
                  (let hasSchedulingIntent = some_test schedulingIntentPatterns question;
                       hasAmbiguousTime = some_test ambiguousPatterns question
                   in Inr (hasSchedulingIntent \<and> (hasAmbiguousTime \<or> extractedRange = None)))))"

section \<open>The collaborators and the observable effects\<close>

record time_range =
  range_start :: jstring
  range_end :: jstring

text \<open>\<^verbatim>\<open>ChatCompletionMessage\<close>, \<^verbatim>\<open>Choice\<close> and the stored messages.\<close>

record assistant_message =
  content :: "jstring option"
  tool_calls :: "tool_call list option"
  function_call :: "fn_call option"

record choice =
  message :: "assistant_message option"
  finish_reason :: "jstring option"

text \<open>
  The answer of the completion endpoint. \<open>None\<close> is an answer without \<^verbatim>\<open>choices\<close>,
  such as the error body of a gateway.
\<close>

record completion =
  choices :: "choice list option"

datatype history_message =
    User jstring
  | Assistant jstring
  | AssistantToolCalls jstring "tool_call list"
  | AssistantFunctionCall jstring fn_call
  | Tool jstring jstring
  | Function jstring jstring

record config =
  instructions :: jstring
  tools :: "jstring list"

text \<open>
  The second argument of \<^verbatim>\<open>openai.chat.completions.create\<close>; the legacy variant
  passes none.
\<close>

record request_options =
  timeout :: jsnum
  maxRetries :: nat

text \<open>
  The two requests to the completion endpoint. The time stamp that both prompts carry
  is read from the clock, which is part of the world.
\<close>

datatype chat_request =
    RangeRequest jstring "request_options option"
  | AssistantRequest config "jstring option" "history_message list" "request_options option"

datatype calendar_request =
    CalendarsGet
  | EventsList jsval jstring jstring
  | EventsInsert jsval
  | EventsUpdate jsval jsval
  | EventsDelete jsval

datatype status_label = ExtractRange | ModelRound nat | ConversationError

datatype gui_node =
    Processing jstring
  | Consulted
  | Scheduled jsval
  | Edited
  | Deleted
  | Unsupported jstring
  | ToolFailed jstring
  | ActionError

text \<open>The stages of \<^verbatim>\<open>logAIInteraction\<close> and the two direct console calls.\<close>

datatype log_stage =
    RequestStart
  | RangeExtractStart
  | RangeExtractFailed
  | RangeExtractSuccess
  | RangeExtractInvalidJson
  | RangeExtracted
  | AssistantConfigLoaded
  | ModelEmptyResponse nat
  | ModelResponse nat
  | ToolDispatch nat
  | FinalResponse nat
  | ClarificationRequired nat
  | ToolCallStart jstring
  | ToolCallResult jstring bool
  | ToolExecutionError
  | RequestComplete nat
  | RequestError

text \<open>
  Everything a request does to the outside, in the order in which it does it: writes to
  the six streams and their completion, requests to the two services, writes to the
  thread store, log lines.
\<close>

datatype effect =
    StatusUpdate status_label
  | StatusDone
  | TextAppend jstring
  | TextDone
  | TextUIDone
  | GuiAppend gui_node
  | GuiUpdate gui_node
  | GuiDone
  | ThreadIdDone
  | RefetchJobsUpdate nat
  | RefetchJobsDone
  | RefetchRangeUpdate "time_range option"
  | RefetchRangeDone
  | ModelCall chat_request
  | CalendarCall calendar_request
  | StoreSet jstring "history_message list"
  | Log log_stage

record user =
  user_name :: "jstring option"
  email :: "jstring option"

record session =
  accessToken :: "jstring option"
  session_user :: "user option"

text \<open>
  The process state: the world behind the collaborators, the trace of effects, and
  \<^verbatim>\<open>conversationStore\<close>.
\<close>

record 'w state =
  world :: 'w
  trace :: "effect list"
  store :: "jstring \<rightharpoonup> history_message list"

text \<open>
  The collaborators and the built-ins, as parameters. A service answers with a value or
  rejects (\<open>Inl\<close>), and may change the world.
\<close>

record 'w env =
  json_parse :: "jstring \<Rightarrow> jsval option"
  json_stringify :: "jsval \<Rightarrow> jstring"
  new_Date :: "jsval \<Rightarrow> int option"
  toISOString :: "int \<Rightarrow> jstring"
  to_String :: "jsval \<Rightarrow> jstring"
  native_message :: "site \<Rightarrow> jstring"
  OPENAI_REQUEST_TIMEOUT_MS :: jsnum
  create_completion :: "chat_request \<Rightarrow> 'w \<Rightarrow> (thrown + completion) \<times> 'w"
  calendar_api :: "calendar_request \<Rightarrow> 'w \<Rightarrow> (thrown + jsval) \<times> 'w"
  loadAssistantConfig :: "'w \<Rightarrow> (thrown + config) \<times> 'w"
  getServerSession :: "'w \<Rightarrow> (thrown + session option) \<times> 'w"
  generateId :: "'w \<Rightarrow> jstring \<times> 'w"

definition emit :: "effect \<Rightarrow> 'w state \<Rightarrow> 'w state" where
  "emit e st = st\<lparr>trace := trace st @ [e]\<rparr>"

definition call_model ::
  "'w env \<Rightarrow> chat_request \<Rightarrow> 'w state \<Rightarrow> (thrown + completion) \<times> 'w state"
where
  "call_model env req st =
     (case create_completion env req (world st) of
        (res, w) \<Rightarrow> (res, (emit (ModelCall req) st)\<lparr>world := w\<rparr>))"

definition call_calendar ::
  "'w env \<Rightarrow> calendar_request \<Rightarrow> 'w state \<Rightarrow> (thrown + jsval) \<times> 'w state"
where
  "call_calendar env req st =
     (case calendar_api env req (world st) of
        (res, w) \<Rightarrow> (res, (emit (CalendarCall req) st)\<lparr>world := w\<rparr>))"

definition request_opts :: "'w env \<Rightarrow> request_options" where
  "request_opts env = \<lparr>timeout = OPENAI_REQUEST_TIMEOUT_MS env, maxRetries = 0\<rparr>"

section \<open>The time range extractor\<close>

text \<open>
  \<^verbatim>\<open>response.choices[0]?.message\<close>: the read of index 0 throws when the answer has
  no \<^verbatim>\<open>choices\<close>.
\<close>

definition first_message :: "completion \<Rightarrow> thrown + assistant_message option" where
  "first_message response =
     (case choices response of
        None \<Rightarrow> Inl (TypeError (Reading Undefined (u16 ''0'')))
      | Some [] \<Rightarrow> Inr None
      | Some (c # _) \<Rightarrow> Inr (message c))"

text \<open>\<^verbatim>\<open>response.choices[0]?.message?.content\<close>\<close>

definition first_content :: "completion \<Rightarrow> thrown + jstring option" where
  "first_content response =
     (case first_message response of
        Inl e \<Rightarrow> Inl e
      | Inr None \<Rightarrow> Inr None
      | Inr (Some m) \<Rightarrow> Inr (content m))"

text \<open>
  The body of the second \<^verbatim>\<open>try\<close> of \<^verbatim>\<open>extractTimeRangeFromQuestion\<close>, the same in
  both variants. \<open>Inl\<close> is what its \<^verbatim>\<open>catch\<close> receives.
\<close>

definition parse_range :: "'w env \<Rightarrow> jstring \<Rightarrow> thrown + time_range option" where
  "parse_range env cnt =
     (case json_parse env cnt of
        None \<Rightarrow> Inl (SyntaxError (Parsing cnt))
      | Some parsed \<Rightarrow>
          (case get_prop parsed (u16 ''start'') of
             Inl e \<Rightarrow> Inl e
           | Inr s \<Rightarrow>
               if \<not> truthy s \<or> \<not> truthy (oprop parsed (u16 ''end'')) then Inr None
               else
                 (case (new_Date env s, new_Date env (oprop parsed (u16 ''end''))) of
                    (Some startDate, Some endDate) \<Rightarrow>
                      if endDate \<le> startDate then Inr None
                      else Inr (Some \<lparr>range_start = toISOString env startDate,
                                       range_end = toISOString env endDate\<rparr>)
                  | _ \<Rightarrow> Inr None)))"

text \<open>
  \<^verbatim>\<open>extractTimeRangeFromQuestion\<close>, lines 176 to 259. The read of
  \<^verbatim>\<open>response.choices[0]\<close> stands between the two \<^verbatim>\<open>try\<close> blocks.
\<close>

definition extractTimeRangeFromQuestion ::
  "'w env \<Rightarrow> jstring \<Rightarrow> 'w state \<Rightarrow> (thrown + time_range option) \<times> 'w state"
where
  "extractTimeRangeFromQuestion env question st =
     (case call_model env (RangeRequest question (Some (request_opts env)))
             (emit (Log RangeExtractStart) st) of
        (Inl error, st1) \<Rightarrow> (Inr None, emit (Log RangeExtractFailed) st1)
      | (Inr response, st1) \<Rightarrow>
          (case first_content response of
             Inl e \<Rightarrow> (Inl e, st1)
           | Inr None \<Rightarrow> (Inr None, st1)
           | Inr (Some cnt) \<Rightarrow>
               if cnt = [] then (Inr None, st1)
               else
                 (case parse_range env cnt of
                    Inl e \<Rightarrow> (Inr None, emit (Log RangeExtractInvalidJson) st1)
                  | Inr None \<Rightarrow> (Inr None, st1)
                  | Inr (Some extracted) \<Rightarrow>
                      (Inr (Some extracted), emit (Log RangeExtractSuccess) st1))))"

text \<open>
  The legacy variant, lines 1021 to 1070: the request is awaited outside any \<^verbatim>\<open>try\<close>,
  with no options and no log lines.
\<close>

definition extractTimeRangeFromQuestion_legacy ::
  "'w env \<Rightarrow> jstring \<Rightarrow> 'w state \<Rightarrow> (thrown + time_range option) \<times> 'w state"
where
  "extractTimeRangeFromQuestion_legacy env question st =
     (case call_model env (RangeRequest question None) st of
        (Inl error, st1) \<Rightarrow> (Inl error, st1)
      | (Inr response, st1) \<Rightarrow>
          (case first_content response of
             Inl e \<Rightarrow> (Inl e, st1)
           | Inr None \<Rightarrow> (Inr None, st1)
           | Inr (Some cnt) \<Rightarrow>
               if cnt = [] then (Inr None, st1)
               else
                 (case parse_range env cnt of
                    Inl e \<Rightarrow> (Inr None, st1)
                  | Inr r \<Rightarrow> (Inr r, st1))))"

section \<open>The tool dispatcher\<close>

text \<open>The result of a tool call; \<^verbatim>\<open>output\<close> is \<open>tool_output\<close> here.\<close>

record tool_result =
  tool_output :: jstring
  didMutate :: bool

text \<open>\<^verbatim>\<open>String(v)\<close> and the conversion inside template literals and \<^verbatim>\<open>join\<close>.\<close>

definition js_String :: "'w env \<Rightarrow> jsval \<Rightarrow> jstring" where
  "js_String env v =
     (case v of
        Str s \<Rightarrow> s
      | Undefined \<Rightarrow> u16 ''undefined''
      | Null \<Rightarrow> u16 ''null''
      | Bool b \<Rightarrow> (if b then u16 ''true'' else u16 ''false'')
      | _ \<Rightarrow> to_String env v)"

text \<open>\<^verbatim>\<open>a ?? b\<close>\<close>

definition nullish :: "jsval \<Rightarrow> jsval \<Rightarrow> jsval" where
  "nullish a b = (if a = Undefined \<or> a = Null then b else a)"

text \<open>\<^verbatim>\<open>xs.join(sep)\<close> on strings.\<close>

fun join :: "jstring \<Rightarrow> jstring list \<Rightarrow> jstring" where
  "join sep [] = []"
| "join sep [x] = x"
| "join sep (x # y # ys) = x @ sep @ join sep (y # ys)"

text \<open>\<^verbatim>\<open>xs.map(f)\<close> with a callback that may throw.\<close>

fun map_throw :: "('a \<Rightarrow> thrown + 'b) \<Rightarrow> 'a list \<Rightarrow> thrown + 'b list" where
  "map_throw f [] = Inr []"
| "map_throw f (x # xs) =
     (case f x of
        Inl e \<Rightarrow> Inl e
      | Inr y \<Rightarrow> (case map_throw f xs of Inl e \<Rightarrow> Inl e | Inr ys \<Rightarrow> Inr (y # ys)))"

text \<open>
  \<^verbatim>\<open>v.map(f)\<close> on a value that is neither \<^verbatim>\<open>null\<close> nor \<^verbatim>\<open>undefined\<close>: only an
  array has the method.
\<close>

definition js_map :: "(jsval \<Rightarrow> thrown + jsval) \<Rightarrow> jsval \<Rightarrow> thrown + jsval" where
  "js_map f v =
     (case v of
        Arr xs \<Rightarrow> (case map_throw f xs of Inl e \<Rightarrow> Inl e | Inr ys \<Rightarrow> Inr (Arr ys))
      | _ \<Rightarrow> Inl (TypeError (Calling v (u16 ''map''))))"

text \<open>\<^verbatim>\<open>v?.map(f)\<close>\<close>

definition js_omap :: "(jsval \<Rightarrow> thrown + jsval) \<Rightarrow> jsval \<Rightarrow> thrown + jsval" where
  "js_omap f v = (if v = Undefined \<or> v = Null then Inr Undefined else js_map f v)"

text \<open>
  The value that a \<^verbatim>\<open>catch\<close> binds: what the collaborator rejected with, or the error
  object of the engine, whose one own property read below is \<^verbatim>\<open>message\<close>.
\<close>

definition error_object :: "'w env \<Rightarrow> thrown \<Rightarrow> jsval" where
  "error_object env e =
     (case e of
        Rejected v \<Rightarrow> v
      | TypeError s \<Rightarrow> Obj [(u16 ''message'', Str (native_message env s))]
      | RangeError s \<Rightarrow> Obj [(u16 ''message'', Str (native_message env s))]
      | SyntaxError s \<Rightarrow> Obj [(u16 ''message'', Str (native_message env s))])"

definition fallback :: jstring where
  "fallback = u16 ''Tool execution failed''"

text \<open>\<^verbatim>\<open>!error || typeof error !== 'object'\<close> is false: an object or an array.\<close>

definition is_object :: "jsval \<Rightarrow> bool" where
  "is_object v = (case v of Obj kvs \<Rightarrow> True | Arr xs \<Rightarrow> True | _ \<Rightarrow> False)"

text \<open>\<^verbatim>\<open>maybeError.response?.data?.error\<close>\<close>

definition api_error :: "jsval \<Rightarrow> jsval" where
  "api_error maybeError =
     oprop (oprop (oprop maybeError (u16 ''response'')) (u16 ''data'')) (u16 ''error'')"

text \<open>The callback \<^verbatim>\<open>(item) => item.reason || item.message\<close>\<close>

definition item_reason :: "jsval \<Rightarrow> thrown + jsval" where
  "item_reason item =
     (case get_prop item (u16 ''reason'') of
        Inl e \<Rightarrow> Inl e
      | Inr r \<Rightarrow> Inr (jor r (oprop item (u16 ''message''))))"

text \<open>
  \<^verbatim>\<open>formatToolError\<close>, lines 90 to 134. \<open>Inl\<close> is an exception that leaves the
  function: \<^verbatim>\<open>errors\<close> that is no array, or an item of it that is \<^verbatim>\<open>null\<close>.
\<close>

definition formatToolError :: "'w env \<Rightarrow> thrown \<Rightarrow> thrown + jstring" where
  "formatToolError env error =
     (let maybeError = error_object env error
      in if \<not> is_object maybeError then Inr fallback
         else
           (let response = oprop maybeError (u16 ''response'');
                status = nullish (oprop response (u16 ''status'')) (oprop maybeError (u16 ''status''));
                statusTxt = oprop response (u16 ''statusText'');
                apiError = api_error maybeError
            in case js_omap item_reason (oprop apiError (u16 ''errors'')) of
                 Inl e \<Rightarrow> Inl e
               | Inr mapped \<Rightarrow>
                   (let reasons =
                          (case mapped of
                             Arr rs \<Rightarrow> join (u16 '', '') (map (js_String env) (filter truthy rs))
                           | _ \<Rightarrow> []);
                        parts =
                          [if truthy status then
                             Str (u16 ''HTTP '' @ js_String env status @
                                  (if truthy statusTxt then u16 '' '' @ js_String env statusTxt
                                   else []))
                           else Str [],
                           if truthy (oprop apiError (u16 ''status'')) then
                             Str (u16 ''status='' @ js_String env (oprop apiError (u16 ''status'')))
                           else Str [],
                           if truthy (oprop apiError (u16 ''code'')) then
                             Str (u16 ''code='' @ js_String env (oprop apiError (u16 ''code'')))
                           else Str [],
                           if truthy (oprop maybeError (u16 ''code'')) then
                             Str (u16 ''err='' @ js_String env (oprop maybeError (u16 ''code'')))
                           else Str [],
                           jor (oprop apiError (u16 ''message''))
                             (jor (oprop maybeError (u16 ''message'')) (Str fallback)),
                           if reasons \<noteq> [] then Str (u16 ''reason='' @ reasons) else Str []]
                    in Inr (join (u16 '' | '') (map (js_String env) (filter truthy parts))))))"

text \<open>
  \<^verbatim>\<open>eps?.find((ep) => ep.entryPointType === 'video')\<close>: the first entry point of type
  video, \<^verbatim>\<open>undefined\<close> when there is none.
\<close>

fun find_video :: "jsval list \<Rightarrow> thrown + jsval" where
  "find_video [] = Inr Undefined"
| "find_video (ep # eps) =
     (case get_prop ep (u16 ''entryPointType'') of
        Inl e \<Rightarrow> Inl e
      | Inr t \<Rightarrow> if t = Str (u16 ''video'') then Inr ep else find_video eps)"

definition video_entry :: "jsval \<Rightarrow> thrown + jsval" where
  "video_entry entryPoints =
     (case entryPoints of
        Undefined \<Rightarrow> Inr Undefined
      | Null \<Rightarrow> Inr Undefined
      | Arr eps \<Rightarrow> find_video eps
      | _ \<Rightarrow> Inl (TypeError (Calling entryPoints (u16 ''find''))))"

text \<open>The callback that turns an event of the provider into an \<^verbatim>\<open>EventInput\<close>.\<close>

definition normalize_event :: "jsval \<Rightarrow> thrown + jsval" where
  "normalize_event event =
     (case get_prop event (u16 ''id'') of
        Inl e \<Rightarrow> Inl e
      | Inr event_id \<Rightarrow>
          (case js_omap (\<lambda>attendee. get_prop attendee (u16 ''email''))
                  (oprop event (u16 ''attendees'')) of
             Inl e \<Rightarrow> Inl e
           | Inr emails \<Rightarrow>
               (case video_entry (oprop (oprop event (u16 ''conferenceData''))
                                   (u16 ''entryPoints'')) of
                  Inl e \<Rightarrow> Inl e
                | Inr ep \<Rightarrow>
                    Inr (Obj
                      [(u16 ''id'', event_id),
                       (u16 ''title'', jor (oprop event (u16 ''summary'')) (Str (u16 ''Busy''))),
                       (u16 ''start'',
                          jor (oprop (oprop event (u16 ''start'')) (u16 ''dateTime''))
                              (oprop (oprop event (u16 ''start'')) (u16 ''date''))),
                       (u16 ''end'',
                          jor (oprop (oprop event (u16 ''end'')) (u16 ''dateTime''))
                              (oprop (oprop event (u16 ''end'')) (u16 ''date''))),
                       (u16 ''allDay'',
                          Bool (\<not> truthy (oprop (oprop event (u16 ''start'')) (u16 ''dateTime'')))),
                       (u16 ''extendedProps'', Obj
                          [(u16 ''description'', jor (oprop event (u16 ''description'')) (Str [])),
                           (u16 ''attendees'', jor emails (Arr [])),
                           (u16 ''recurrence'', jor (oprop event (u16 ''recurrence'')) (Arr [])),
                           (u16 ''hangoutLink'', jor (oprop event (u16 ''hangoutLink'')) (Str [])),
                           (u16 ''videoConferenceLink'', jor (oprop ep (u16 ''uri'')) (Str [])),
                           (u16 ''responseStatus'', oprop event (u16 ''status''))])]))))"

text \<open>
  Destructuring \<^verbatim>\<open>const { ... } = args\<close> throws on \<^verbatim>\<open>null\<close> and \<^verbatim>\<open>undefined\<close>;
  the fields are then read with \<open>oprop\<close>.
\<close>

definition destructurable :: "jsval \<Rightarrow> bool" where
  "destructurable args \<longleftrightarrow> args \<noteq> Null \<and> args \<noteq> Undefined"

text \<open>\<^verbatim>\<open>new Date(v).toISOString()\<close>: a \<^verbatim>\<open>RangeError\<close> on an invalid date.\<close>

definition date_iso :: "'w env \<Rightarrow> jsval \<Rightarrow> thrown + jstring" where
  "date_iso env v =
     (case new_Date env v of
        None \<Rightarrow> Inl (RangeError (InvalidDate v))
      | Some t \<Rightarrow> Inr (toISOString env t))"

text \<open>\<^verbatim>\<open>s.includes('T') ? s.split('T')[0] : s\<close>\<close>

definition date_only :: "jstring \<Rightarrow> jstring" where
  "date_only s = (if 0x54 \<in> set s then takeWhile (\<lambda>c. c \<noteq> 0x54) s else s)"

text \<open>\<^verbatim>\<open>resolvePrimaryCalendarTimeZone\<close>\<close>

definition resolvePrimaryCalendarTimeZone :: "'w env \<Rightarrow> 'w state \<Rightarrow> jsval \<times> 'w state" where
  "resolvePrimaryCalendarTimeZone env st =
     (case call_calendar env CalendarsGet st of
        (Inl e, st1) \<Rightarrow> (Str (u16 ''UTC''), st1)
      | (Inr primary_data, st1) \<Rightarrow>
          (case get_prop primary_data (u16 ''timeZone'') of
             Inl e \<Rightarrow> (Str (u16 ''UTC''), st1)
           | Inr tz \<Rightarrow> (jor tz (Str (u16 ''UTC'')), st1)))"

text \<open>\<^verbatim>\<open>attendees?.length\<close>\<close>

definition js_length :: "jsval \<Rightarrow> jsval" where
  "js_length v =
     (case v of
        Arr xs \<Rightarrow> Num (Fin (of_nat (length xs)))
      | Str s \<Rightarrow> Num (Fin (of_nat (length s)))
      | Obj kvs \<Rightarrow> oprop v (u16 ''length'')
      | _ \<Rightarrow> Undefined)"

text \<open>The iteration of a string: by code point, a surrogate pair is one element.\<close>

fun code_points :: "jstring \<Rightarrow> jstring list" where
  "code_points [] = []"
| "code_points [c] = [[c]]"
| "code_points (c # d # cs) =
     (if 0xD800 \<le> c \<and> c \<le> 0xDBFF \<and> 0xDC00 \<le> d \<and> d \<le> 0xDFFF
      then [c, d] # code_points cs
      else [c] # code_points (d # cs))"

text \<open>\<^verbatim>\<open>[...v]\<close>: arrays and strings are iterable.\<close>

definition spread :: "jsval \<Rightarrow> thrown + jsval list" where
  "spread v =
     (case v of
        Arr xs \<Rightarrow> Inr xs
      | Str s \<Rightarrow> Inr (map Str (code_points s))
      | _ \<Rightarrow> Inl (TypeError (Iterating v)))"

definition opt_str :: "jstring option \<Rightarrow> jsval" where
  "opt_str s = (case s of None \<Rightarrow> Undefined | Some x \<Rightarrow> Str x)"

text \<open>The \<^verbatim>\<open>start\<close> and \<^verbatim>\<open>end\<close> of a request body.\<close>

definition time_field :: "jsval \<Rightarrow> jsval \<Rightarrow> jsval \<Rightarrow> (jstring \<times> jsval) list \<Rightarrow> jsval" where
  "time_field all_day dateTime dateOnly tz =
     Obj ([(u16 ''dateTime'', if truthy all_day then Undefined else dateTime),
           (u16 ''date'', if truthy all_day then dateOnly else Undefined)] @ tz)"

definition email_object :: "jsval \<Rightarrow> jsval" where
  "email_object e = Obj [(u16 ''email'', e)]"

text \<open>The branches of the \<^verbatim>\<open>try\<close> of \<^verbatim>\<open>executeCalendarTool\<close>, lines 400 to 602.\<close>

definition get_calendar ::
  "'w env \<Rightarrow> jsval \<Rightarrow> 'w state \<Rightarrow> (thrown + tool_result) \<times> 'w state"
where
  "get_calendar env args st =
     (if \<not> destructurable args then (Inl (TypeError (Destructuring args)), st)
      else
        (case date_iso env (oprop args (u16 ''start_time'')) of
           Inl e \<Rightarrow> (Inl e, st)
         | Inr start \<Rightarrow>
             (case date_iso env (oprop args (u16 ''end_time'')) of
                Inl e \<Rightarrow> (Inl e, st)
              | Inr end_iso \<Rightarrow>
                  (case call_calendar env
                          (EventsList (jor (oprop args (u16 ''calendar_id'')) (Str (u16 ''primary'')))
                             start end_iso) st of
                     (Inl e, st1) \<Rightarrow> (Inl e, st1)
                   | (Inr response_data, st1) \<Rightarrow>
                       (case get_prop response_data (u16 ''items'') of
                          Inl e \<Rightarrow> (Inl e, st1)
                        | Inr items \<Rightarrow>
                            (case js_map normalize_event (jor items (Arr [])) of
                               Inl e \<Rightarrow> (Inl e, st1)
                             | Inr events \<Rightarrow>
                                 (Inr \<lparr>tool_output =
                                         json_stringify env (Obj [(u16 ''data'', events)]),
                                       didMutate = False\<rparr>,
                                  emit (GuiUpdate Consulted) st1)))))))"

definition schedule_event ::
  "'w env \<Rightarrow> jsval \<Rightarrow> jstring option \<Rightarrow> 'w state \<Rightarrow> (thrown + tool_result) \<times> 'w state"
where
  "schedule_event env args userEmail st =
     (if \<not> destructurable args then (Inl (TypeError (Destructuring args)), st)
      else
        (case (if truthy (oprop args (u16 ''time_zone''))
               then (oprop args (u16 ''time_zone''), st)
               else resolvePrimaryCalendarTimeZone env st) of
           (eventTimeZone, st1) \<Rightarrow>
             (let start = js_String env (oprop args (u16 ''start_time''));
                  end_str = js_String env (oprop args (u16 ''end_time''));
                  all_day = oprop args (u16 ''all_day'');
                  attendees = oprop args (u16 ''attendees'')
              in case (if truthy (js_length attendees)
                       then (case spread attendees of
                               Inl e \<Rightarrow> Inl e
                             | Inr xs \<Rightarrow> Inr (filter truthy (xs @ [opt_str userEmail])))
                       else Inr []) of
                   Inl e \<Rightarrow> (Inl e, st1)
                 | Inr attendeesWithSelf \<Rightarrow>
                     (case call_calendar env
                             (EventsInsert (Obj
                               [(u16 ''summary'', oprop args (u16 ''summary'')),
                                (u16 ''description'', oprop args (u16 ''description'')),
                                (u16 ''start'',
                                   time_field all_day (Str start) (Str (date_only start))
                                     [(u16 ''timeZone'', eventTimeZone)]),
                                (u16 ''end'',
                                   time_field all_day (Str end_str) (Str (date_only end_str))
                                     [(u16 ''timeZone'', eventTimeZone)]),
                                (u16 ''attendees'', Arr (map email_object attendeesWithSelf)),
                                (u16 ''recurrence'', oprop args (u16 ''recurrence''))])) st1 of
                        (Inl e, st2) \<Rightarrow> (Inl e, st2)
                      | (Inr result_data, st2) \<Rightarrow>
                          (case get_prop result_data (u16 ''htmlLink'') of
                             Inl e \<Rightarrow> (Inl e, st2)
                           | Inr htmlLink \<Rightarrow>
                               (Inr \<lparr>tool_output =
                                       json_stringify env (Obj [(u16 ''data'', result_data)]),
                                     didMutate = True\<rparr>,
                                emit (GuiUpdate (Scheduled htmlLink)) st2))))))"

definition edit_event ::
  "'w env \<Rightarrow> jsval \<Rightarrow> 'w state \<Rightarrow> (thrown + tool_result) \<times> 'w state"
where
  "edit_event env args st =
     (if \<not> destructurable args then (Inl (TypeError (Destructuring args)), st)
      else
        (case resolvePrimaryCalendarTimeZone env st of
           (eventTimeZone, st1) \<Rightarrow>
             (let stringOrUndefined =
                    (\<lambda>v. if truthy v then Str (js_String env v) else Undefined);
                  dateOnly =
                    (\<lambda>v. case v of Str s \<Rightarrow> if s \<noteq> [] then Str (date_only s) else v | _ \<Rightarrow> v);
                  start = stringOrUndefined (oprop args (u16 ''start_time''));
                  end_str = stringOrUndefined (oprop args (u16 ''end_time''));
                  all_day = oprop args (u16 ''all_day'')
              in case js_omap (\<lambda>e. Inr (email_object e)) (oprop args (u16 ''attendees'')) of
                   Inl e \<Rightarrow> (Inl e, st1)
                 | Inr attendees \<Rightarrow>
                     (case call_calendar env
                             (EventsUpdate (oprop args (u16 ''event_id'')) (Obj
                               [(u16 ''summary'', oprop args (u16 ''summary'')),
                                (u16 ''description'', oprop args (u16 ''description'')),
                                (u16 ''start'',
                                   time_field all_day start (dateOnly start)
                                     [(u16 ''timeZone'', eventTimeZone)]),
                                (u16 ''end'',
                                   time_field all_day end_str (dateOnly end_str)
                                     [(u16 ''timeZone'', eventTimeZone)]),
                                (u16 ''attendees'', attendees),
                                (u16 ''recurrence'', oprop args (u16 ''recurrence''))])) st1 of
                        (Inl e, st2) \<Rightarrow> (Inl e, st2)
                      | (Inr result_data, st2) \<Rightarrow>
                          (Inr \<lparr>tool_output =
                                  json_stringify env (Obj [(u16 ''data'', result_data)]),
                                didMutate = True\<rparr>,
                           emit (GuiUpdate Edited) st2)))))"

definition delete_event ::
  "'w env \<Rightarrow> jsval \<Rightarrow> 'w state \<Rightarrow> (thrown + tool_result) \<times> 'w state"
where
  "delete_event env args st =
     (if \<not> destructurable args then (Inl (TypeError (Destructuring args)), st)
      else
        (case call_calendar env (EventsDelete (oprop args (u16 ''event_id''))) st of
           (Inl e, st1) \<Rightarrow> (Inl e, st1)
         | (Inr result_data, st1) \<Rightarrow>
             (Inr \<lparr>tool_output = json_stringify env (Obj [(u16 ''data'', result_data)]),
                   didMutate = True\<rparr>,
              emit (GuiUpdate Deleted) st1)))"

definition unsupported_tool :: "'w env \<Rightarrow> jstring \<Rightarrow> tool_result" where
  "unsupported_tool env nm =
     \<lparr>tool_output =
        json_stringify env (Obj [(u16 ''error'', Str (u16 ''Unsupported tool: '' @ nm))]),
      didMutate = False\<rparr>"

definition try_tool ::
  "'w env \<Rightarrow> jstring \<Rightarrow> jsval \<Rightarrow> jstring option \<Rightarrow> 'w state \<Rightarrow>
   (thrown + tool_result) \<times> 'w state"
where
  "try_tool env nm args userEmail st =
     (if nm = u16 ''get_calendar'' then get_calendar env args st
      else if nm = u16 ''schedule_event'' then schedule_event env args userEmail st
      else if nm = u16 ''edit_event'' then edit_event env args st
      else if nm = u16 ''delete_event'' then delete_event env args st
      else (Inr (unsupported_tool env nm), emit (GuiUpdate (Unsupported nm)) st))"

definition error_result :: "'w env \<Rightarrow> jstring \<Rightarrow> tool_result" where
  "error_result env detail =
     \<lparr>tool_output = json_stringify env (Obj [(u16 ''error'', Str detail)]),
      didMutate = False\<rparr>"

text \<open>
  \<^verbatim>\<open>executeCalendarTool\<close>, lines 365 to 625. \<open>Inl\<close> is an exception that leaves the
  function: the one that \<^verbatim>\<open>formatToolError\<close> throws in the \<^verbatim>\<open>catch\<close>, before
  anything is logged or shown.
\<close>

definition executeCalendarTool ::
  "'w env \<Rightarrow> tool_call \<Rightarrow> jstring option \<Rightarrow> 'w state \<Rightarrow> (thrown + tool_result) \<times> 'w state"
where
  "executeCalendarTool env toolCall userEmail st =
     (let nm = name (fn toolCall);
          args = parseArgs (json_parse env) (arguments (fn toolCall))
      in case try_tool env nm args userEmail (emit (GuiAppend (Processing nm)) st) of
           (Inr result, st1) \<Rightarrow> (Inr result, st1)
         | (Inl error, st1) \<Rightarrow>
             (case formatToolError env error of
                Inl e \<Rightarrow> (Inl e, st1)
              | Inr detail \<Rightarrow>
                  (Inr (error_result env detail),
                   emit (GuiUpdate (ToolFailed detail)) (emit (Log ToolExecutionError) st1))))"

section \<open>The orchestration loop\<close>

definition MAX_TOOL_ROUNDS :: nat where
  "MAX_TOOL_ROUNDS = 8"

text \<open>\<^verbatim>\<open>buildClarificationPrompt\<close>: a heading, five numbered questions, a closing line.\<close>

definition clarification_lines :: "jstring list" where
  "clarification_lines =
     [[0x5728, 0x6211, 0x521B, 0x5EFA, 0x6216, 0x4FEE, 0x6539, 0x65E5, 0x7A0B, 0x4E4B, 0x524D,
       0xFF0C, 0x6211, 0x5148, 0x786E, 0x8BA4, 0x51E0, 0x4E2A, 0x5173, 0x952E, 0x4FE1, 0x606F,
       0xFF1A],
      [0x0031, 0x002E, 0x0020, 0x8BA1, 0x5212, 0x4ECE, 0x54EA, 0x5929, 0x5F00, 0x59CB, 0xFF0C,
       0x5230, 0x54EA, 0x5929, 0x7ED3, 0x675F, 0xFF1F],
      [0x0032, 0x002E, 0x0020, 0x6BCF, 0x5468, 0x51C6, 0x5907, 0x51E0, 0x6B21, 0xFF1F, 0x6BCF,
       0x6B21, 0x591A, 0x957F, 0x65F6, 0x95F4, 0xFF1F],
      [0x0033, 0x002E, 0x0020, 0x4F60, 0x504F, 0x597D, 0x7684, 0x65F6, 0x95F4, 0x6BB5, 0x662F,
       0x54EA, 0x4E9B, 0xFF08, 0x5982, 0x5DE5, 0x4F5C, 0x65E5, 0x665A, 0x4E0A, 0x3001, 0x5468,
       0x672B, 0x4E0A, 0x5348, 0xFF09, 0xFF1F],
      [0x0034, 0x002E, 0x0020, 0x662F, 0x5426, 0x8981, 0x907F, 0x5F00, 0x5DF2, 0x6709, 0x65E5,
       0x7A0B, 0x5E76, 0x81EA, 0x52A8, 0x627E, 0x7A7A, 0x6863, 0xFF1F],
      [0x0035, 0x002E, 0x0020, 0x662F, 0x5426, 0x9700, 0x8981, 0x63D0, 0x524D, 0x63D0, 0x9192,
       0xFF08, 0x63D0, 0x524D, 0x591A, 0x4E45, 0xFF09, 0xFF1F],
      [0x4F60, 0x56DE, 0x590D, 0x8FD9, 0x4E9B, 0x4FE1, 0x606F, 0x540E, 0xFF0C, 0x6211, 0x518D,
       0x6267, 0x884C, 0x5177, 0x4F53, 0x5B89, 0x6392, 0x3002]]"

definition buildClarificationPrompt :: jstring where
  "buildClarificationPrompt = join [0x0A] clarification_lines"

definition no_response :: jstring where
  "no_response = u16 ''No response from model.''"

text \<open>\<^verbatim>\<open>s || d\<close> on an optional string.\<close>

definition str_or :: "jstring option \<Rightarrow> jstring \<Rightarrow> jstring" where
  "str_or s d = (case s of None \<Rightarrow> d | Some x \<Rightarrow> if x = [] then d else x)"

definition gen_id :: "'w env \<Rightarrow> 'w state \<Rightarrow> jstring \<times> 'w state" where
  "gen_id env st = (case generateId env (world st) of (i, w) \<Rightarrow> (i, st\<lparr>world := w\<rparr>))"

text \<open>
  \<^verbatim>\<open>if (result.didMutate) { refetchJobs++; refetchJobsStream.update(refetchJobs) }\<close>
\<close>

definition count_mutation :: "tool_result \<Rightarrow> nat \<Rightarrow> 'w state \<Rightarrow> nat \<times> 'w state" where
  "count_mutation result refetchJobs st =
     (if didMutate result then (refetchJobs + 1, emit (RefetchJobsUpdate (refetchJobs + 1)) st)
      else (refetchJobs, st))"

text \<open>
  The message that records a result, lines 851 to 863: a \<^verbatim>\<open>tool\<close> message under
  \<^verbatim>\<open>toolCall.id || generateId()\<close> when the calls came as \<^verbatim>\<open>tool_calls\<close> (\<open>modern\<close>),
  a \<^verbatim>\<open>function\<close> message for the legacy single call.
\<close>

definition result_message ::
  "'w env \<Rightarrow> bool \<Rightarrow> tool_call \<Rightarrow> tool_result \<Rightarrow> 'w state \<Rightarrow> history_message \<times> 'w state"
where
  "result_message env modern toolCall result st =
     (if modern then
        (case (if str_or (call_id toolCall) [] \<noteq> [] then (str_or (call_id toolCall) [], st)
               else gen_id env st) of
           (tool_call_id, st1) \<Rightarrow> (Tool tool_call_id (tool_output result), st1))
      else (Function (name (fn toolCall)) (tool_output result), st))"

text \<open>
  The inner loop, lines 816 to 864: the calls one after the other, in the order
  requested.
\<close>

fun execute_calls ::
  "'w env \<Rightarrow> bool \<Rightarrow> jstring option \<Rightarrow> tool_call list \<Rightarrow> history_message list \<Rightarrow> nat \<Rightarrow>
   'w state \<Rightarrow> (thrown + history_message list \<times> nat) \<times> 'w state"
where
  "execute_calls env modern userEmail [] history refetchJobs st = (Inr (history, refetchJobs), st)"
| "execute_calls env modern userEmail (toolCall # rest) history refetchJobs st =
     (case executeCalendarTool env toolCall userEmail
             (emit (Log (ToolCallStart (name (fn toolCall)))) st) of
        (Inl e, st1) \<Rightarrow> (Inl e, st1)
      | (Inr result, st1) \<Rightarrow>
          (case count_mutation result refetchJobs
                  (emit (Log (ToolCallResult (name (fn toolCall)) (didMutate result))) st1) of
             (jobs, st2) \<Rightarrow>
               (case result_message env modern toolCall result st2 of
                  (msg, st3) \<Rightarrow>
                    execute_calls env modern userEmail rest (history @ [msg]) jobs st3)))"

text \<open>
  How the loop was left. This tag is not in the source: it names the \<^verbatim>\<open>break\<close> that
  was taken, or the end of the round budget.
\<close>

datatype loop_exit = NoMessage | FinalAnswer | Clarification | Exhausted

definition user_email :: "session \<Rightarrow> jstring option" where
  "user_email sess = (case session_user sess of None \<Rightarrow> None | Some u \<Rightarrow> email u)"

definition current_user :: "session \<Rightarrow> jstring option" where
  "current_user sess = (case session_user sess of None \<Rightarrow> None | Some u \<Rightarrow> user_name u)"

text \<open>
  \<^verbatim>\<open>toolCalls.length ? toolCalls : legacyFunctionCall ? [{ function: legacyFunctionCall }] : []\<close>
\<close>

definition executable_calls :: "tool_call list \<Rightarrow> fn_call option \<Rightarrow> tool_call list" where
  "executable_calls toolCalls legacyFunctionCall =
     (if toolCalls \<noteq> [] then toolCalls
      else (case legacyFunctionCall of
              Some f \<Rightarrow> [\<lparr>call_id = None, fn = f\<rparr>]
            | None \<Rightarrow> []))"

text \<open>The assistant message that records the requests, lines 802 to 814.\<close>

definition request_message ::
  "assistant_message \<Rightarrow> tool_call list \<Rightarrow> fn_call option \<Rightarrow> history_message list"
where
  "request_message m toolCalls legacyFunctionCall =
     (if toolCalls \<noteq> [] then [AssistantToolCalls (str_or (content m) []) toolCalls]
      else (case legacyFunctionCall of
              Some f \<Rightarrow> [AssistantFunctionCall (str_or (content m) []) f]
            | None \<Rightarrow> []))"

text \<open>
  How one pass through the body of the \<^verbatim>\<open>for\<close> loop ends: at a \<^verbatim>\<open>break\<close>, at the
  end of the body, or with an exception.
\<close>

datatype round_outcome =
    Break "history_message list" nat loop_exit
  | Continue "history_message list" nat
  | Throw thrown

text \<open>The body of the \<^verbatim>\<open>for\<close> loop of \<^verbatim>\<open>submitMessage\<close>, lines 694 to 864.\<close>

definition tool_round ::
  "'w env \<Rightarrow> jstring \<Rightarrow> time_range option \<Rightarrow> session \<Rightarrow> config \<Rightarrow> nat \<Rightarrow>
   history_message list \<Rightarrow> nat \<Rightarrow> 'w state \<Rightarrow> round_outcome \<times> 'w state"
where
  "tool_round env question extractedRange sess cfg rnd history refetchJobs st =
     (case call_model env
             (AssistantRequest cfg (current_user sess) history (Some (request_opts env)))
             (emit (StatusUpdate (ModelRound (rnd + 1))) st) of
        (Inl e, st1) \<Rightarrow> (Throw e, st1)
      | (Inr completion, st1) \<Rightarrow>
          (case first_message completion of
             Inl e \<Rightarrow> (Throw e, st1)
           | Inr None \<Rightarrow>
               (Break history refetchJobs NoMessage,
                emit (Log (ModelEmptyResponse (rnd + 1))) (emit (TextAppend no_response) st1))
           | Inr (Some assistantMessage) \<Rightarrow>
               (let toolCalls = (case tool_calls assistantMessage of None \<Rightarrow> [] | Some tcs \<Rightarrow> tcs);
                    legacyFunctionCall = function_call assistantMessage;
                    st2 = emit (Log (ToolDispatch (rnd + 1)))
                            (emit (Log (ModelResponse (rnd + 1))) st1)
                in if toolCalls = [] \<and> legacyFunctionCall = None then
                     (let cnt = str_or (content assistantMessage) no_response
                      in (Break (history @ [Assistant cnt]) refetchJobs FinalAnswer,
                          emit (Log (FinalResponse (rnd + 1))) (emit (TextAppend cnt) st2)))
                   else
                     (case shouldAskClarificationBeforeMutation (json_parse env) question
                             extractedRange (executable_calls toolCalls legacyFunctionCall) of
                        Inl e \<Rightarrow> (Throw e, st2)
                      | Inr defer \<Rightarrow>
                          if defer then
                            (Break (history @ [Assistant buildClarificationPrompt]) refetchJobs
                               Clarification,
                             emit (Log (ClarificationRequired (rnd + 1)))
                               (emit (TextAppend buildClarificationPrompt) st2))
                          else
                            (case execute_calls env (toolCalls \<noteq> []) (user_email sess)
                                    (executable_calls toolCalls legacyFunctionCall)
                                    (history @
                                       request_message assistantMessage toolCalls legacyFunctionCall)
                                    refetchJobs st2 of
                               (Inl e, st3) \<Rightarrow> (Throw e, st3)
                             | (Inr (history1, jobs), st3) \<Rightarrow> (Continue history1 jobs, st3))))))"

text \<open>
  The \<^verbatim>\<open>for\<close> loop, line 693, from round \<open>rnd\<close> on. \<open>Inl\<close> is an exception on its way
  to the \<^verbatim>\<open>catch\<close> of line 872.
\<close>

function tool_rounds ::
  "'w env \<Rightarrow> jstring \<Rightarrow> time_range option \<Rightarrow> session \<Rightarrow> config \<Rightarrow> nat \<Rightarrow>
   history_message list \<Rightarrow> nat \<Rightarrow> 'w state \<Rightarrow>
   (thrown + history_message list \<times> nat \<times> loop_exit) \<times> 'w state"
where
  "tool_rounds env question extractedRange sess cfg rnd history refetchJobs st =
     (if rnd < MAX_TOOL_ROUNDS then
        (case tool_round env question extractedRange sess cfg rnd history refetchJobs st of
           (Throw e, st1) \<Rightarrow> (Inl e, st1)
         | (Break history1 jobs how, st1) \<Rightarrow> (Inr (history1, jobs, how), st1)
         | (Continue history1 jobs, st1) \<Rightarrow>
             tool_rounds env question extractedRange sess cfg (rnd + 1) history1 jobs st1)
      else (Inr (history, refetchJobs, Exhausted), st))"
  by pat_completeness auto
termination
  by (relation "measure (\<lambda>(env, question, extractedRange, sess, cfg, rnd, history, refetchJobs, st).
                   MAX_TOOL_ROUNDS - rnd)") auto

section \<open>One request\<close>

text \<open>\<^verbatim>\<open>history.slice(-30)\<close>\<close>

definition slice_last_30 :: "'a list \<Rightarrow> 'a list" where
  "slice_last_30 xs = drop (length xs - 30) xs"

definition load_config :: "'w env \<Rightarrow> 'w state \<Rightarrow> (thrown + config) \<times> 'w state" where
  "load_config env st =
     (case loadAssistantConfig env (world st) of (res, w) \<Rightarrow> (res, st\<lparr>world := w\<rparr>))"

text \<open>
  The \<^verbatim>\<open>try\<close> block of the detached body, lines 667 to 865, up to the end of the loop.
\<close>

definition request_rounds ::
  "'w env \<Rightarrow> jstring \<Rightarrow> jstring \<Rightarrow> session \<Rightarrow> 'w state \<Rightarrow>
   (thrown + history_message list \<times> nat \<times> loop_exit) \<times> 'w state"
where
  "request_rounds env question normalizedThreadId sess st =
     (case extractTimeRangeFromQuestion env question
             (emit (StatusUpdate ExtractRange) (emit (Log RequestStart) st)) of
        (Inl e, st1) \<Rightarrow> (Inl e, st1)
      | (Inr extractedRange, st1) \<Rightarrow>
          (case load_config env
                  (emit (Log RangeExtracted) (emit (RefetchRangeUpdate extractedRange) st1)) of
             (Inl e, st2) \<Rightarrow> (Inl e, st2)
           | (Inr cfg, st2) \<Rightarrow>
               (let st3 = emit (Log AssistantConfigLoaded) st2;
                    history = (case store st3 normalizedThreadId of None \<Rightarrow> [] | Some h \<Rightarrow> h)
                              @ [User question]
                in tool_rounds env question extractedRange sess cfg 0 history 0 st3)))"

text \<open>The \<^verbatim>\<open>finally\<close> block, lines 884 to 892.\<close>

definition stream_completion :: "effect list" where
  "stream_completion =
     [StatusDone, TextUIDone, GuiDone, TextDone, ThreadIdDone, RefetchJobsDone, RefetchRangeDone]"

definition complete_streams :: "'w state \<Rightarrow> 'w state" where
  "complete_streams st = st\<lparr>trace := trace st @ stream_completion\<rparr>"

text \<open>\<^verbatim>\<open>`Error: ${error?.message || 'Failed to process the request.'}`\<close>\<close>

definition request_error_text :: "'w env \<Rightarrow> thrown \<Rightarrow> jstring" where
  "request_error_text env error =
     u16 ''Error: '' @
     js_String env
       (jor (oprop (error_object env error) (u16 ''message''))
            (Str (u16 ''Failed to process the request.'')))"

text \<open>The detached body, lines 666 to 893: \<^verbatim>\<open>try\<close>, \<^verbatim>\<open>catch\<close>, \<^verbatim>\<open>finally\<close>.\<close>

definition request :: "'w env \<Rightarrow> jstring \<Rightarrow> jstring \<Rightarrow> session \<Rightarrow> 'w state \<Rightarrow> 'w state" where
  "request env question normalizedThreadId sess st =
     (case request_rounds env question normalizedThreadId sess st of
        (Inr (history, refetchJobs, how), st1) \<Rightarrow>
          complete_streams
            (emit (Log (RequestComplete (length history)))
              (emit (StoreSet normalizedThreadId (slice_last_30 history))
                (st1\<lparr>store := (store st1)(normalizedThreadId \<mapsto> slice_last_30 history)\<rparr>)))
      | (Inl error, st1) \<Rightarrow>
          complete_streams
            (emit (TextAppend (request_error_text env error))
              (emit (Log RequestError) (emit (StatusUpdate ConversationError) st1))))"

text \<open>What \<^verbatim>\<open>submitMessage\<close> returns: which of its three \<^verbatim>\<open>ClientMessage\<close> shapes.\<close>

datatype client_message =
    NotAuthenticated jstring
  | Streaming jstring jstring
  | FailedToSubmit

definition get_session :: "'w env \<Rightarrow> 'w state \<Rightarrow> (thrown + session option) \<times> 'w state" where
  "get_session env st =
     (case getServerSession env (world st) of (res, w) \<Rightarrow> (res, st\<lparr>world := w\<rparr>))"

text \<open>
  \<^verbatim>\<open>submitMessage\<close>, lines 627 to 912. The body runs detached; the state returned
  here is the state when it has finished. The identifier of the returned message is
  drawn before the body runs.
\<close>

definition submitMessage ::
  "'w env \<Rightarrow> jstring \<Rightarrow> jstring \<Rightarrow> 'w state \<Rightarrow> client_message \<times> 'w state"
where
  "submitMessage env question threadId st =
     (case get_session env st of
        (Inl e, st1) \<Rightarrow>
          (case gen_id env st1 of (message_id, st2) \<Rightarrow> (FailedToSubmit, st2))
      | (Inr sess, st1) \<Rightarrow>
          (case sess of
             None \<Rightarrow>
               (case gen_id env st1 of (message_id, st2) \<Rightarrow> (NotAuthenticated message_id, st2))
           | Some s \<Rightarrow>
               if str_or (accessToken s) [] = [] then
                 (case gen_id env st1 of (message_id, st2) \<Rightarrow> (NotAuthenticated message_id, st2))
               else
                 (case (if threadId \<noteq> [] then (threadId, st1) else gen_id env st1) of
                    (normalizedThreadId, st2) \<Rightarrow>
                      (case gen_id env st2 of
                         (message_id, st3) \<Rightarrow>
                           (Streaming message_id normalizedThreadId,
                            request env question normalizedThreadId s st3)))))"

text \<open>Requests handled one after the other by one process.\<close>

fun submit_all :: "'w env \<Rightarrow> (jstring \<times> jstring) list \<Rightarrow> 'w state \<Rightarrow> 'w state" where
  "submit_all env [] st = st"
| "submit_all env ((question, threadId) # reqs) st =
     submit_all env reqs (snd (submitMessage env question threadId st))"

section \<open>The legacy variant\<close>

text \<open>
  The second copy of the module, lines 917 to 1499. Its \<^verbatim>\<open>get_calendar\<close> and
  \<^verbatim>\<open>delete_event\<close> branches are those of the first copy.
\<close>

text \<open>\<^verbatim>\<open>v.split('T')[0]\<close>: only a string has the method.\<close>

definition split_T_first :: "jsval \<Rightarrow> thrown + jsval" where
  "split_T_first v =
     (case v of
        Str s \<Rightarrow> Inr (Str (takeWhile (\<lambda>c. c \<noteq> 0x54) s))
      | _ \<Rightarrow> Inl (TypeError (Calling v (u16 ''split''))))"

text \<open>
  \<^verbatim>\<open>{ dateTime: all_day ? undefined : v, date: all_day ? v.split('T')[0] : undefined }\<close>
\<close>

definition time_field_legacy ::
  "jsval \<Rightarrow> jsval \<Rightarrow> (jstring \<times> jsval) list \<Rightarrow> thrown + jsval"
where
  "time_field_legacy all_day v tz =
     (if truthy all_day then
        (case split_T_first v of
           Inl e \<Rightarrow> Inl e
         | Inr d \<Rightarrow> Inr (Obj ([(u16 ''dateTime'', Undefined), (u16 ''date'', d)] @ tz)))
      else Inr (Obj ([(u16 ''dateTime'', v), (u16 ''date'', Undefined)] @ tz)))"

definition schedule_event_legacy ::
  "'w env \<Rightarrow> jsval \<Rightarrow> jstring option \<Rightarrow> 'w state \<Rightarrow> (thrown + tool_result) \<times> 'w state"
where
  "schedule_event_legacy env args userEmail st =
     (if \<not> destructurable args then (Inl (TypeError (Destructuring args)), st)
      else
        (let eventTimeZone =
               jor (oprop args (u16 ''time_zone'')) (Str (u16 ''America/Los_Angeles''));
             all_day = oprop args (u16 ''all_day'');
             attendees = oprop args (u16 ''attendees'')
         in case date_iso env (oprop args (u16 ''start_time'')) of
              Inl e \<Rightarrow> (Inl e, st)
            | Inr start \<Rightarrow>
                (case date_iso env (oprop args (u16 ''end_time'')) of
                   Inl e \<Rightarrow> (Inl e, st)
                 | Inr end_iso \<Rightarrow>
                     (case (if truthy (js_length attendees)
                            then (case spread attendees of
                                    Inl e \<Rightarrow> Inl e
                                  | Inr xs \<Rightarrow> Inr (filter truthy (xs @ [opt_str userEmail])))
                            else Inr []) of
                        Inl e \<Rightarrow> (Inl e, st)
                      | Inr attendeesWithSelf \<Rightarrow>
                          (case call_calendar env
                                  (EventsInsert (Obj
                                    [(u16 ''summary'', oprop args (u16 ''summary'')),
                                     (u16 ''description'', oprop args (u16 ''description'')),
                                     (u16 ''start'',
                                        time_field all_day (Str start) (Str (date_only start))
                                          [(u16 ''timeZone'', eventTimeZone)]),
                                     (u16 ''end'',
                                        time_field all_day (Str end_iso) (Str (date_only end_iso))
                                          [(u16 ''timeZone'', eventTimeZone)]),
                                     (u16 ''attendees'', Arr (map email_object attendeesWithSelf)),
                                     (u16 ''recurrence'', oprop args (u16 ''recurrence''))])) st of
                             (Inl e, st1) \<Rightarrow> (Inl e, st1)
                           | (Inr result_data, st1) \<Rightarrow>
                               (Inr \<lparr>tool_output =
                                       json_stringify env (Obj [(u16 ''data'', result_data)]),
                                     didMutate = True\<rparr>,
                                emit (GuiUpdate (Scheduled Undefined)) st1))))))"

text \<open>\<^verbatim>\<open>v && new Date(v).toISOString()\<close>\<close>

definition and_date_iso :: "'w env \<Rightarrow> jsval \<Rightarrow> thrown + jsval" where
  "and_date_iso env v =
     (if truthy v then (case date_iso env v of Inl e \<Rightarrow> Inl e | Inr s \<Rightarrow> Inr (Str s))
      else Inr v)"

definition edit_request_legacy :: "'w env \<Rightarrow> jsval \<Rightarrow> thrown + calendar_request" where
  "edit_request_legacy env args =
     (case and_date_iso env (oprop args (u16 ''start_time'')) of
        Inl e \<Rightarrow> Inl e
      | Inr start \<Rightarrow>
          (case and_date_iso env (oprop args (u16 ''end_time'')) of
             Inl e \<Rightarrow> Inl e
           | Inr end_v \<Rightarrow>
               (case time_field_legacy (oprop args (u16 ''all_day'')) start [] of
                  Inl e \<Rightarrow> Inl e
                | Inr start_field \<Rightarrow>
                    (case time_field_legacy (oprop args (u16 ''all_day'')) end_v [] of
                       Inl e \<Rightarrow> Inl e
                     | Inr end_field \<Rightarrow>
                         (case js_omap (\<lambda>e. Inr (email_object e))
                                 (oprop args (u16 ''attendees'')) of
                            Inl e \<Rightarrow> Inl e
                          | Inr attendees \<Rightarrow>
                              Inr (EventsUpdate (oprop args (u16 ''event_id'')) (Obj
                                [(u16 ''summary'', oprop args (u16 ''summary'')),
                                 (u16 ''description'', oprop args (u16 ''description'')),
                                 (u16 ''start'', start_field),
                                 (u16 ''end'', end_field),
                                 (u16 ''attendees'', attendees),
                                 (u16 ''recurrence'', oprop args (u16 ''recurrence''))])))))))"

definition edit_event_legacy ::
  "'w env \<Rightarrow> jsval \<Rightarrow> 'w state \<Rightarrow> (thrown + tool_result) \<times> 'w state"
where
  "edit_event_legacy env args st =
     (if \<not> destructurable args then (Inl (TypeError (Destructuring args)), st)
      else
        (case edit_request_legacy env args of
           Inl e \<Rightarrow> (Inl e, st)
         | Inr req \<Rightarrow>
             (case call_calendar env req st of
                (Inl e, st1) \<Rightarrow> (Inl e, st1)
              | (Inr result_data, st1) \<Rightarrow>
                  (Inr \<lparr>tool_output = json_stringify env (Obj [(u16 ''data'', result_data)]),
                        didMutate = True\<rparr>,
                   emit (GuiUpdate Edited) st1))))"

definition try_tool_legacy ::
  "'w env \<Rightarrow> jstring \<Rightarrow> jsval \<Rightarrow> jstring option \<Rightarrow> 'w state \<Rightarrow>
   (thrown + tool_result) \<times> 'w state"
where
  "try_tool_legacy env nm args userEmail st =
     (if nm = u16 ''get_calendar'' then get_calendar env args st
      else if nm = u16 ''schedule_event'' then schedule_event_legacy env args userEmail st
      else if nm = u16 ''edit_event'' then edit_event_legacy env args st
      else if nm = u16 ''delete_event'' then delete_event env args st
      else (Inr (unsupported_tool env nm), emit (GuiUpdate (Unsupported nm)) st))"

text \<open>\<^verbatim>\<open>executeCalendarTool\<close> of the legacy variant, lines 1082 to 1313.\<close>

definition executeCalendarTool_legacy ::
  "'w env \<Rightarrow> tool_call \<Rightarrow> jstring option \<Rightarrow> 'w state \<Rightarrow> (thrown + tool_result) \<times> 'w state"
where
  "executeCalendarTool_legacy env toolCall userEmail st =
     (let nm = name (fn toolCall);
          args = parseArgs (json_parse env) (arguments (fn toolCall))
      in case try_tool_legacy env nm args userEmail (emit (GuiAppend (Processing nm)) st) of
           (Inr result, st1) \<Rightarrow> (Inr result, st1)
         | (Inl error, st1) \<Rightarrow>
             (Inr \<lparr>tool_output =
                     json_stringify env (Obj [(u16 ''error'',
                       jor (oprop (error_object env error) (u16 ''message''))
                           (Str fallback))]),
                   didMutate = False\<rparr>,
              emit (GuiUpdate ActionError) st1))"

fun execute_calls_legacy ::
  "'w env \<Rightarrow> bool \<Rightarrow> jstring option \<Rightarrow> tool_call list \<Rightarrow> history_message list \<Rightarrow> nat \<Rightarrow>
   'w state \<Rightarrow> (thrown + history_message list \<times> nat) \<times> 'w state"
where
  "execute_calls_legacy env modern userEmail [] history refetchJobs st =
     (Inr (history, refetchJobs), st)"
| "execute_calls_legacy env modern userEmail (toolCall # rest) history refetchJobs st =
     (case executeCalendarTool_legacy env toolCall userEmail st of
        (Inl e, st1) \<Rightarrow> (Inl e, st1)
      | (Inr result, st1) \<Rightarrow>
          (case count_mutation result refetchJobs st1 of
             (jobs, st2) \<Rightarrow>
               (case result_message env modern toolCall result st2 of
                  (msg, st3) \<Rightarrow>
                    execute_calls_legacy env modern userEmail rest (history @ [msg]) jobs st3)))"

text \<open>
  The body of the \<^verbatim>\<open>for\<close> loop of the legacy \<^verbatim>\<open>submitMessage\<close>, lines 1368 to
  1458: no gate.
\<close>

definition tool_round_legacy ::
  "'w env \<Rightarrow> session \<Rightarrow> config \<Rightarrow> nat \<Rightarrow> history_message list \<Rightarrow> nat \<Rightarrow> 'w state \<Rightarrow>
   round_outcome \<times> 'w state"
where
  "tool_round_legacy env sess cfg rnd history refetchJobs st =
     (case call_model env (AssistantRequest cfg (current_user sess) history None)
             (emit (StatusUpdate (ModelRound (rnd + 1))) st) of
        (Inl e, st1) \<Rightarrow> (Throw e, st1)
      | (Inr completion, st1) \<Rightarrow>
          (case first_message completion of
             Inl e \<Rightarrow> (Throw e, st1)
           | Inr None \<Rightarrow> (Break history refetchJobs NoMessage, emit (TextAppend no_response) st1)
           | Inr (Some assistantMessage) \<Rightarrow>
               (let toolCalls = (case tool_calls assistantMessage of None \<Rightarrow> [] | Some tcs \<Rightarrow> tcs);
                    legacyFunctionCall = function_call assistantMessage;
                    st2 = emit (Log (ToolDispatch (rnd + 1))) st1
                in if toolCalls = [] \<and> legacyFunctionCall = None then
                     (let cnt = str_or (content assistantMessage) no_response
                      in (Break (history @ [Assistant cnt]) refetchJobs FinalAnswer,
                          emit (TextAppend cnt) st2))
                   else
                     (case execute_calls_legacy env (toolCalls \<noteq> []) (user_email sess)
                             (executable_calls toolCalls legacyFunctionCall)
                             (history @
                                request_message assistantMessage toolCalls legacyFunctionCall)
                             refetchJobs st2 of
                        (Inl e, st3) \<Rightarrow> (Throw e, st3)
                      | (Inr (history1, jobs), st3) \<Rightarrow> (Continue history1 jobs, st3)))))"

text \<open>The \<^verbatim>\<open>for\<close> loop of the legacy \<^verbatim>\<open>submitMessage\<close>, line 1367.\<close>

function tool_rounds_legacy ::
  "'w env \<Rightarrow> session \<Rightarrow> config \<Rightarrow> nat \<Rightarrow> history_message list \<Rightarrow> nat \<Rightarrow> 'w state \<Rightarrow>
   (thrown + history_message list \<times> nat \<times> loop_exit) \<times> 'w state"
where
  "tool_rounds_legacy env sess cfg rnd history refetchJobs st =
     (if rnd < MAX_TOOL_ROUNDS then
        (case tool_round_legacy env sess cfg rnd history refetchJobs st of
           (Throw e, st1) \<Rightarrow> (Inl e, st1)
         | (Break history1 jobs how, st1) \<Rightarrow> (Inr (history1, jobs, how), st1)
         | (Continue history1 jobs, st1) \<Rightarrow>
             tool_rounds_legacy env sess cfg (rnd + 1) history1 jobs st1)
      else (Inr (history, refetchJobs, Exhausted), st))"
  by pat_completeness auto
termination
  by (relation "measure (\<lambda>(env, sess, cfg, rnd, history, refetchJobs, st).
                   MAX_TOOL_ROUNDS - rnd)") auto

definition request_rounds_legacy ::
  "'w env \<Rightarrow> jstring \<Rightarrow> jstring \<Rightarrow> session \<Rightarrow> 'w state \<Rightarrow>
   (thrown + history_message list \<times> nat \<times> loop_exit) \<times> 'w state"
where
  "request_rounds_legacy env question normalizedThreadId sess st =
     (case extractTimeRangeFromQuestion_legacy env question (emit (StatusUpdate ExtractRange) st) of
        (Inl e, st1) \<Rightarrow> (Inl e, st1)
      | (Inr extractedRange, st1) \<Rightarrow>
          (case load_config env (emit (RefetchRangeUpdate extractedRange) st1) of
             (Inl e, st2) \<Rightarrow> (Inl e, st2)
           | (Inr cfg, st2) \<Rightarrow>
               tool_rounds_legacy env sess cfg 0
                 ((case store st2 normalizedThreadId of None \<Rightarrow> [] | Some h \<Rightarrow> h) @ [User question])
                 0 st2))"

definition request_legacy ::
  "'w env \<Rightarrow> jstring \<Rightarrow> jstring \<Rightarrow> session \<Rightarrow> 'w state \<Rightarrow> 'w state"
where
  "request_legacy env question normalizedThreadId sess st =
     (case request_rounds_legacy env question normalizedThreadId sess st of
        (Inr (history, refetchJobs, how), st1) \<Rightarrow>
          complete_streams
            (emit (StoreSet normalizedThreadId (slice_last_30 history))
              (st1\<lparr>store := (store st1)(normalizedThreadId \<mapsto> slice_last_30 history)\<rparr>))
      | (Inl error, st1) \<Rightarrow>
          complete_streams
            (emit (TextAppend (request_error_text env error))
              (emit (StatusUpdate ConversationError) st1)))"

text \<open>\<^verbatim>\<open>submitMessage\<close> of the legacy variant, lines 1315 to 1495.\<close>

definition submitMessage_legacy ::
  "'w env \<Rightarrow> jstring \<Rightarrow> jstring \<Rightarrow> 'w state \<Rightarrow> client_message \<times> 'w state"
where
  "submitMessage_legacy env question threadId st =
     (case get_session env st of
        (Inl e, st1) \<Rightarrow>
          (case gen_id env st1 of (message_id, st2) \<Rightarrow> (FailedToSubmit, st2))
      | (Inr sess, st1) \<Rightarrow>
          (case sess of
             None \<Rightarrow>
               (case gen_id env st1 of (message_id, st2) \<Rightarrow> (NotAuthenticated message_id, st2))
           | Some s \<Rightarrow>
               if str_or (accessToken s) [] = [] then
                 (case gen_id env st1 of (message_id, st2) \<Rightarrow> (NotAuthenticated message_id, st2))
               else
                 (case (if threadId \<noteq> [] then (threadId, st1) else gen_id env st1) of
                    (normalizedThreadId, st2) \<Rightarrow>
                      (case gen_id env st2 of
                         (message_id, st3) \<Rightarrow>
                           (Streaming message_id normalizedThreadId,
                            request_legacy env question normalizedThreadId s st3)))))"

fun submit_all_legacy :: "'w env \<Rightarrow> (jstring \<times> jstring) list \<Rightarrow> 'w state \<Rightarrow> 'w state" where
  "submit_all_legacy env [] st = st"
| "submit_all_legacy env ((question, threadId) # reqs) st =
     submit_all_legacy env reqs (snd (submitMessage_legacy env question threadId st))"

section \<open>Reading the trace\<close>

text \<open>The effects that were appended to the trace between two states.\<close>

definition effects_of :: "'w state \<Rightarrow> 'w state \<Rightarrow> effect list" where
  "effects_of st st' = drop (length (trace st)) (trace st')"

fun is_assistant_call :: "effect \<Rightarrow> bool" where
  "is_assistant_call (ModelCall (AssistantRequest cfg u h opts)) = True"
| "is_assistant_call _ = False"

text \<open>The number of requests to the assistant completion endpoint.\<close>

definition assistant_calls :: "effect list \<Rightarrow> nat" where
  "assistant_calls tr = length (filter is_assistant_call tr)"

fun jobs_update :: "effect \<Rightarrow> nat option" where
  "jobs_update (RefetchJobsUpdate n) = Some n"
| "jobs_update _ = None"

text \<open>
  The values written to \<^verbatim>\<open>refetchJobsStream\<close> after its creation with the value 0.
\<close>

definition jobs_updates :: "effect list \<Rightarrow> nat list" where
  "jobs_updates tr = List.map_filter jobs_update tr"

fun is_mutating_result :: "effect \<Rightarrow> bool" where
  "is_mutating_result (Log (ToolCallResult nm d)) = d"
| "is_mutating_result _ = False"

text \<open>The number of executed tool calls whose result reports \<^verbatim>\<open>didMutate\<close>.\<close>

definition mutating_results :: "effect list \<Rightarrow> nat" where
  "mutating_results tr = length (filter is_mutating_result tr)"

fun is_tool_execution :: "effect \<Rightarrow> bool" where
  "is_tool_execution (CalendarCall req) = True"
| "is_tool_execution (GuiAppend n) = True"
| "is_tool_execution (GuiUpdate n) = True"
| "is_tool_execution (Log (ToolCallStart nm)) = True"
| "is_tool_execution (Log (ToolCallResult nm d)) = True"
| "is_tool_execution (Log ToolExecutionError) = True"
| "is_tool_execution (RefetchJobsUpdate n) = True"
| "is_tool_execution _ = False"

fun is_store_set :: "effect \<Rightarrow> bool" where
  "is_store_set (StoreSet t h) = True"
| "is_store_set _ = False"

text \<open>The effects of the dispatcher itself.\<close>

fun is_dispatch :: "effect \<Rightarrow> bool" where
  "is_dispatch (CalendarCall req) = True"
| "is_dispatch (GuiAppend n) = True"
| "is_dispatch (GuiUpdate n) = True"
| "is_dispatch (Log ToolExecutionError) = True"
| "is_dispatch _ = False"


text \<open>An effect of the running body: no completion of a stream, no write to the store.\<close>

definition in_flight :: "effect \<Rightarrow> bool" where
  "in_flight e \<longleftrightarrow> e \<notin> set stream_completion \<and> \<not> is_store_set e"

text \<open>A message that records the result of a tool call.\<close>

fun is_result :: "history_message \<Rightarrow> bool" where
  "is_result (Tool i c) = True"
| "is_result (Function n c) = True"
| "is_result _ = False"

text \<open>An effect that none of the readers above counts.\<close>

definition silent :: "effect \<Rightarrow> bool" where
  "silent e \<longleftrightarrow>
     in_flight e \<and> \<not> is_assistant_call e \<and> jobs_update e = None \<and> \<not> is_mutating_result e"

text \<open>
  From one state to a later one: the store is the same, and the trace has grown by
  effects that all satisfy \<open>P\<close>.
\<close>

definition steps :: "(effect \<Rightarrow> bool) \<Rightarrow> 'w state \<Rightarrow> 'w state \<Rightarrow> bool" where
  "steps P st st' \<longleftrightarrow> store st' = store st \<and> (\<exists>tr. trace st' = trace st @ tr \<and> list_all P tr)"

text \<open>
  The invariant of section 3 on a history: a message that records \<open>n\<close> tool-call requests
  is followed by \<open>n\<close> result messages before the next message of another kind. \<open>k\<close> is
  the number of results still due.
\<close>

fun answered :: "nat \<Rightarrow> history_message list \<Rightarrow> bool" where
  "answered k [] = (k = 0)"
| "answered k (Tool i c # ms) = answered (k - 1) ms"
| "answered k (Function n c # ms) = answered (k - 1) ms"
| "answered k (AssistantToolCalls c tcs # ms) = (k = 0 \<and> answered (length tcs) ms)"
| "answered k (AssistantFunctionCall c f # ms) = (k = 0 \<and> answered 1 ms)"
| "answered k (User c # ms) = (k = 0 \<and> answered 0 ms)"
| "answered k (Assistant c # ms) = (k = 0 \<and> answered 0 ms)"

section \<open>Notions of the specification\<close>

text \<open>
  The fields that the specification requires of each mutating tool: start, end and title
  for scheduling; identifier, start, end and title for editing; the identifier for
  deleting. Other tools require none.
\<close>

definition required_fields :: "jstring \<Rightarrow> jstring list" where
  "required_fields nm =
     (if nm = u16 ''schedule_event'' then [u16 ''start_time'', u16 ''end_time'', u16 ''summary'']
      else if nm = u16 ''edit_event'' then
        [u16 ''event_id'', u16 ''start_time'', u16 ''end_time'', u16 ''summary'']
      else if nm = u16 ''delete_event'' then [u16 ''event_id'']
      else [])"

text \<open>A field is present: the payload is an object that has the key, with a truthy value.\<close>

definition field_present :: "jsval \<Rightarrow> jstring \<Rightarrow> bool" where
  "field_present args k =
     (case args of
        Obj kvs \<Rightarrow> (case map_of kvs k of None \<Rightarrow> False | Some v \<Rightarrow> truthy v)
      | _ \<Rightarrow> False)"

text \<open>A call has complete arguments: every field required of its tool is present.\<close>

definition complete_call :: "(jstring \<Rightarrow> jsval option) \<Rightarrow> tool_call \<Rightarrow> bool" where
  "complete_call jp c =
     list_all (field_present (parseArgs jp (arguments (fn c)))) (required_fields (name (fn c)))"

section \<open>Inputs of the examples\<close>

text \<open>A stand-in for \<^verbatim>\<open>JSON.parse\<close> on the three payloads of the examples.\<close>

definition sample_parse :: "jstring \<Rightarrow> jsval option" where
  \<open>sample_parse =
     map_of
       [(u16 ''{"event_id":"E123"}'', Obj [(u16 ''event_id'', Str (u16 ''E123''))]),
        (u16 ''{"start_time":"2026-01-05T09:00:00Z","end_time":"2026-01-05T10:00:00Z","summary":""}'',
         Obj [(u16 ''start_time'', Str (u16 ''2026-01-05T09:00:00Z'')),
              (u16 ''end_time'', Str (u16 ''2026-01-05T10:00:00Z'')),
              (u16 ''summary'', Str [])]),
        (u16 ''null'', Null)]\<close>

definition call_of :: "string \<Rightarrow> string \<Rightarrow> tool_call" where
  "call_of nm args =
     \<lparr>call_id = Some (u16 ''call_1''), fn = \<lparr>name = u16 nm, arguments = Some (u16 args)\<rparr>\<rparr>"

definition delete_E123 :: tool_call where
  \<open>delete_E123 = call_of ''delete_event'' ''{"event_id":"E123"}''\<close>



definition get_calendar_call :: tool_call where
  \<open>get_calendar_call = call_of ''get_calendar'' ''null''\<close>

text \<open>The question of five characters that is the first no-action phrase.\<close>

definition question_no_action :: jstring where
  "question_no_action = [0x5148, 0x4E0D, 0x8981, 0x64CD, 0x4F5C]"

text \<open>The question of scenario B: scheduling intent and an ambiguous time.\<close>

definition question_review :: jstring where
  "question_review =
     [0x5B89, 0x6392, 0x4E00, 0x4E0B, 0x590D, 0x4E60, 0xFF0C, 0x6700, 0x8FD1, 0x627E, 0x65F6,
      0x95F4]"


text \<open>
  Stand-ins for the collaborators. The world is the number of completion requests made
  so far; the completion endpoint answers them from a script and rejects when the
  script is over; the calendar answers by the kind of request.
\<close>

definition sample_stringify :: "jsval \<Rightarrow> jstring" where
  "sample_stringify v =
     (case v of
        Obj ((k, Str s) # _) \<Rightarrow> k @ u16 ''='' @ s
      | Obj ((k, _) # _) \<Rightarrow> k
      | _ \<Rightarrow> [])"

definition sample_config :: config where
  "sample_config = \<lparr>instructions = u16 ''You manage a calendar.'',
                     tools = [u16 ''get_calendar'', u16 ''schedule_event'', u16 ''edit_event'',
                              u16 ''delete_event'']\<rparr>"

definition sample_session :: session where
  "sample_session = \<lparr>accessToken = Some (u16 ''token''),
                      session_user = Some \<lparr>user_name = Some (u16 ''Ada''),
                                            email = Some (u16 ''ada@example.org'')\<rparr>\<rparr>"

definition connection_error :: thrown where
  "connection_error = Rejected (Obj [(u16 ''message'', Str (u16 ''Connection error.''))])"

definition scripted_env ::
  "(thrown + completion) list \<Rightarrow> (calendar_request \<Rightarrow> thrown + jsval) \<Rightarrow> nat env"
where
  "scripted_env script cal =
     \<lparr>json_parse = sample_parse,
      json_stringify = sample_stringify,
      new_Date = (\<lambda>v. None),
      toISOString = (\<lambda>t. []),
      to_String = (\<lambda>v. []),
      native_message = (\<lambda>s. u16 ''error''),
      OPENAI_REQUEST_TIMEOUT_MS = Fin 20000,
      create_completion =
        (\<lambda>req w. (if w < length script then script ! w else Inl connection_error, Suc w)),
      calendar_api = (\<lambda>req w. (cal req, w)),
      loadAssistantConfig = (\<lambda>w. (Inr sample_config, w)),
      getServerSession = (\<lambda>w. (Inr (Some sample_session), w)),
      generateId = (\<lambda>w. (u16 ''generated'', w))\<rparr>"

text \<open>
  A rejection whose list of reasons holds \<^verbatim>\<open>null\<close>:
  \<^verbatim>\<open>{ response: { data: { error: { errors: [null] } } } }\<close>.
\<close>

definition null_reason_error :: thrown where
  "null_reason_error =
     Rejected (Obj [(u16 ''response'',
       Obj [(u16 ''data'',
         Obj [(u16 ''error'', Obj [(u16 ''errors'', Arr [Null])])])])])"

text \<open>
  A calendar that accepts everything, one that rejects everything, one that rejects only
  the lookup of the primary calendar, and one that rejects everything with a list of
  reasons that holds \<^verbatim>\<open>null\<close>.
\<close>

definition calendar_ok :: "calendar_request \<Rightarrow> thrown + jsval" where
  "calendar_ok req = Inr (Obj [])"



definition calendar_null_reason :: "calendar_request \<Rightarrow> thrown + jsval" where
  "calendar_null_reason req = Inl null_reason_error"

definition initial_state :: "nat state" where
  "initial_state = \<lparr>world = 0, trace = [], store = Map.empty\<rparr>"

definition thread_1 :: jstring where
  "thread_1 = u16 ''thread-1''"

text \<open>Answers of the completion endpoint: no content, a text, requested calls.\<close>

definition no_content :: "thrown + completion" where
  "no_content =
     Inr \<lparr>choices = Some [\<lparr>message = Some \<lparr>content = None, tool_calls = None,
                                                 function_call = None\<rparr>,
                                finish_reason = None\<rparr>]\<rparr>"

definition says :: "string \<Rightarrow> thrown + completion" where
  "says s =
     Inr \<lparr>choices = Some [\<lparr>message = Some \<lparr>content = Some (u16 s), tool_calls = None,
                                                 function_call = None\<rparr>,
                                finish_reason = Some (u16 ''stop'')\<rparr>]\<rparr>"

definition requests :: "tool_call list \<Rightarrow> thrown + completion" where
  "requests tcs =
     Inr \<lparr>choices = Some [\<lparr>message = Some \<lparr>content = None, tool_calls = Some tcs,
                                                 function_call = None\<rparr>,
                                finish_reason = Some (u16 ''tool_calls'')\<rparr>]\<rparr>"

definition unknown_tool_call :: tool_call where
  \<open>unknown_tool_call = call_of ''send_email'' ''null''\<close>

text \<open>
  The endpoint answers the extraction with no content and then says that it is done; a
  thread whose stored history is full; the question of scenario A.
\<close>

definition answering :: "nat env" where
  "answering = scripted_env [no_content, says ''Done.''] calendar_ok"

definition full_thread :: "nat state" where
  "full_thread =
     \<lparr>world = 0, trace = [], store = [thread_1 \<mapsto> replicate 30 (User question_review)]\<rparr>"

definition question_delete :: jstring where
  "question_delete = u16 ''delete event with id E123''"

text \<open>The endpoint requests a listing in every round.\<close>

definition looping :: "nat env" where
  "looping = scripted_env (no_content # replicate 8 (requests [get_calendar_call])) calendar_ok"


text \<open>
  The completion endpoint is unreachable; it answers the extraction with no content and
  then requests a vague scheduling; it answers the extraction with no content, then
  requests a deletion, a listing with a \<^verbatim>\<open>null\<close> payload and an unknown tool, then
  says that it is done.
\<close>

definition unreachable :: "nat env" where
  "unreachable = scripted_env [] calendar_ok"


definition failing_round :: "nat env" where
  "failing_round = scripted_env [no_content] calendar_ok"


declare tool_rounds.simps [simp del] tool_rounds_legacy.simps [simp del]


section \<open>The clarification gate: properties\<close>

lemmas pattern_eval =
  some_test_def noActionPatterns_def schedulingIntentPatterns_def ambiguousPatterns_def
  u16_def canonicalize_def is_space_def

text \<open>
  Claim C1. When the question matches a no-action phrase and the requested calls contain a
  mutating one (\<^verbatim>\<open>schedule_event\<close>, \<^verbatim>\<open>edit_event\<close>, \<^verbatim>\<open>delete_event\<close>), the gate
  returns true, whatever the arguments of the calls are; when no requested call is
  mutating it returns false, whatever the question is.
\<close>

theorem no_action_phrase_defers:
  "(some_test noActionPatterns question \<longrightarrow>
      (\<exists>c\<in>set calls. name (fn c) \<in> set mutation_names) \<longrightarrow>
      shouldAskClarificationBeforeMutation jp question r calls = Inr True)
   \<and> ((\<forall>c\<in>set calls. name (fn c) \<notin> set mutation_names) \<longrightarrow>
      shouldAskClarificationBeforeMutation jp question r calls = Inr False)"
  by (auto simp: shouldAskClarificationBeforeMutation_def list_ex_iff)

theorem no_action_phrase_defers_witness:
  "shouldAskClarificationBeforeMutation sample_parse question_no_action
     (None :: time_range option) [get_calendar_call, delete_E123] = Inr True
   \<and> shouldAskClarificationBeforeMutation sample_parse question_no_action
       (None :: time_range option) [get_calendar_call] = Inr False"
proof -
  have q: "some_test noActionPatterns question_no_action"
    by (simp add: question_no_action_def pattern_eval)
  have m: "\<exists>c\<in>set [get_calendar_call, delete_E123]. name (fn c) \<in> set mutation_names"
    by (simp add: delete_E123_def call_of_def mutation_names_def)
  have n: "\<forall>c\<in>set [get_calendar_call]. name (fn c) \<notin> set mutation_names"
    by (simp add: get_calendar_call_def call_of_def mutation_names_def u16_def)
  from q m n
    no_action_phrase_defers [of question_no_action "[get_calendar_call, delete_E123]"
      sample_parse None]
    no_action_phrase_defers [of question_no_action "[get_calendar_call]" sample_parse None]
  show ?thesis by blast
qed

lemma every_all_true: "(\<forall>x\<in>set xs. f x = Inr True) \<Longrightarrow> every f xs = Inr True"
  by (induction xs) auto


lemma all_truthy_destructurable:
  "destructurable args \<Longrightarrow> all_truthy args ks = Inr (list_all (\<lambda>k. truthy (oprop args k)) ks)"
proof (induction ks)
  case Nil
  then show ?case by simp
next
  case (Cons k ks)
  then show ?case
    by (cases args) (simp_all add: destructurable_def)
qed

lemma all_truthy_Obj:
  "all_truthy (Obj kvs) ks = Inr (list_all (\<lambda>k. truthy (oprop (Obj kvs) k)) ks)"
  by (rule all_truthy_destructurable) (simp add: destructurable_def)

lemma field_present_truthy:
  "field_present args k \<Longrightarrow> \<exists>kvs. args = Obj kvs \<and> truthy (oprop args k)"
  by (auto simp: field_present_def split: jsval.splits option.splits)

lemma complete_sufficient: "complete_call jp c \<Longrightarrow> sufficientArgs jp c = Inr True"
  unfolding complete_call_def sufficientArgs_def required_fields_def Let_def
  by (auto simp: all_truthy_Obj simp del: all_truthy.simps dest!: field_present_truthy
      split: if_splits)




text \<open>
  Claim C2, as stated: when every mutating call has complete arguments the gate returns
  false for every question. It fails on a question that is a no-action phrase: the
  deletion of event E123, with its identifier, is deferred.
\<close>

theorem complete_arguments_counterexample:
  "list_all (complete_call sample_parse) [delete_E123]
   \<and> shouldAskClarificationBeforeMutation sample_parse question_no_action
       (None :: time_range option) [delete_E123] = Inr True"
  by (simp add: complete_call_def delete_E123_def call_of_def required_fields_def
      field_present_def parseArgs_def sample_parse_def shouldAskClarificationBeforeMutation_def
      mutation_names_def question_no_action_def pattern_eval)

text \<open>
  Claim C2, amended. When the question matches no no-action phrase and every requested
  call has complete arguments (each field required of its tool present with a truthy
  value; a tool that is not mutating requires none), the gate returns false, whatever
  else the question says and whether or not a time range was extracted.
\<close>

theorem complete_arguments_not_deferred:
  assumes "\<not> some_test noActionPatterns question"
    and "\<forall>c\<in>set calls. complete_call jp c"
  shows "shouldAskClarificationBeforeMutation jp question r calls = Inr False"
proof -
  have "every (sufficientArgs jp) calls = Inr True"
    using assms(2) by (intro every_all_true) (simp add: complete_sufficient)
  then show ?thesis
    using assms(1) by (simp add: shouldAskClarificationBeforeMutation_def)
qed

theorem complete_arguments_not_deferred_witness:
  "shouldAskClarificationBeforeMutation sample_parse question_review
     (None :: time_range option) [get_calendar_call, delete_E123] = Inr False"
proof -
  have q: "\<not> some_test noActionPatterns question_review"
    by (simp add: question_review_def pattern_eval)
  have c: "\<forall>c\<in>set [get_calendar_call, delete_E123]. complete_call sample_parse c"
    by (simp add: complete_call_def delete_E123_def get_calendar_call_def call_of_def
        required_fields_def field_present_def parseArgs_def sample_parse_def u16_def)
  show ?thesis
    using complete_arguments_not_deferred [OF q c] .
qed




section \<open>Effects of the parts of a request\<close>

lemma trace_emit [simp]: "trace (emit e st) = trace st @ [e]"
  by (simp add: emit_def)

lemma store_emit [simp]: "store (emit e st) = store st"
  by (simp add: emit_def)

lemma world_emit [simp]: "world (emit e st) = world st"
  by (simp add: emit_def)

lemma steps_refl: "steps P st st"
  by (simp add: steps_def)

lemma steps_trans: "steps P a b \<Longrightarrow> steps P b c \<Longrightarrow> steps P a c"
  by (auto simp: steps_def)

lemma steps_mono: "steps P a b \<Longrightarrow> (\<And>e. P e \<Longrightarrow> Q e) \<Longrightarrow> steps Q a b"
  by (auto simp: steps_def list_all_iff)

lemma call_model_effect:
  "call_model env req st = (res, st') \<Longrightarrow>
   store st' = store st \<and> trace st' = trace st @ [ModelCall req]"
  by (auto simp: call_model_def split: prod.splits)

lemma call_calendar_effect:
  "call_calendar env req st = (res, st') \<Longrightarrow>
   store st' = store st \<and> trace st' = trace st @ [CalendarCall req]"
  by (auto simp: call_calendar_def split: prod.splits)


lemma gen_id_effect: "gen_id env st = (i, st') \<Longrightarrow> store st' = store st \<and> trace st' = trace st"
  by (auto simp: gen_id_def split: prod.splits)

lemma load_config_effect:
  "load_config env st = (res, st') \<Longrightarrow> store st' = store st \<and> trace st' = trace st"
  by (auto simp: load_config_def split: prod.splits)

lemma get_session_effect:
  "get_session env st = (res, st') \<Longrightarrow> store st' = store st \<and> trace st' = trace st"
  by (auto simp: get_session_def split: prod.splits)

lemma resolve_steps:
  "resolvePrimaryCalendarTimeZone env st = (tz, st') \<Longrightarrow> steps is_dispatch st st'"
  by (auto simp: resolvePrimaryCalendarTimeZone_def steps_def split: prod.splits sum.splits
      dest!: call_calendar_effect)

lemma get_calendar_steps:
  "get_calendar env args st = (res, st') \<Longrightarrow> steps is_dispatch st st'"
  by (auto simp: get_calendar_def steps_def split: prod.splits sum.splits if_splits
      dest!: call_calendar_effect)

lemma delete_event_steps:
  "delete_event env args st = (res, st') \<Longrightarrow> steps is_dispatch st st'"
  by (auto simp: delete_event_def steps_def split: prod.splits sum.splits if_splits
      dest!: call_calendar_effect)

lemma edit_event_steps:
  "edit_event env args st = (res, st') \<Longrightarrow> steps is_dispatch st st'"
  by (auto simp: edit_event_def steps_def Let_def split: prod.splits sum.splits if_splits
      dest!: call_calendar_effect resolve_steps [unfolded steps_def])

lemma schedule_event_steps:
  "schedule_event env args userEmail st = (res, st') \<Longrightarrow> steps is_dispatch st st'"
  by (auto simp: schedule_event_def steps_def Let_def split: prod.splits sum.splits if_splits
      dest!: call_calendar_effect resolve_steps [unfolded steps_def])

lemma try_tool_steps:
  "try_tool env nm args userEmail st = (res, st') \<Longrightarrow> steps is_dispatch st st'"
  unfolding try_tool_def
  by (auto split: if_splits dest: get_calendar_steps delete_event_steps edit_event_steps
      schedule_event_steps simp: steps_def)

lemma executeCalendarTool_steps:
  "executeCalendarTool env toolCall userEmail st = (res, st') \<Longrightarrow> steps is_dispatch st st'"
  by (auto simp: executeCalendarTool_def Let_def steps_def split: prod.splits sum.splits
      dest!: try_tool_steps [unfolded steps_def])

lemma jobs_updates_append [simp]: "jobs_updates (xs @ ys) = jobs_updates xs @ jobs_updates ys"
  by (simp add: jobs_updates_def map_filter_def)

lemma mutating_results_append [simp]:
  "mutating_results (xs @ ys) = mutating_results xs + mutating_results ys"
  by (simp add: mutating_results_def)

lemma assistant_calls_append [simp]:
  "assistant_calls (xs @ ys) = assistant_calls xs + assistant_calls ys"
  by (simp add: assistant_calls_def)

lemma jobs_updates_simps [simp]:
  "jobs_updates [] = []"
  "jobs_updates (e # tr) = (case jobs_update e of None \<Rightarrow> jobs_updates tr | Some n \<Rightarrow> n # jobs_updates tr)"
  by (simp_all add: jobs_updates_def map_filter_def split: option.splits)

lemma mutating_results_simps [simp]:
  "mutating_results [] = 0"
  "mutating_results (e # tr) = (if is_mutating_result e then Suc (mutating_results tr) else mutating_results tr)"
  by (simp_all add: mutating_results_def)

lemma assistant_calls_simps [simp]:
  "assistant_calls [] = 0"
  "assistant_calls (e # tr) = (if is_assistant_call e then Suc (assistant_calls tr) else assistant_calls tr)"
  by (simp_all add: assistant_calls_def)

lemma in_flight_simps [simp]:
  "in_flight (StatusUpdate l)" "in_flight (TextAppend t)" "in_flight (GuiAppend n)"
  "in_flight (GuiUpdate n)" "in_flight (RefetchJobsUpdate k)" "in_flight (RefetchRangeUpdate r)"
  "in_flight (ModelCall req)" "in_flight (CalendarCall creq)" "in_flight (Log stage)"
  "\<not> in_flight (StoreSet t h)"
  "\<not> in_flight StatusDone" "\<not> in_flight TextDone" "\<not> in_flight TextUIDone" "\<not> in_flight GuiDone"
  "\<not> in_flight ThreadIdDone" "\<not> in_flight RefetchJobsDone" "\<not> in_flight RefetchRangeDone"
  by (simp_all add: in_flight_def stream_completion_def)

lemma silent_list:
  "list_all silent tr \<Longrightarrow>
   list_all in_flight tr \<and> assistant_calls tr = 0 \<and> jobs_updates tr = [] \<and> mutating_results tr = 0"
  by (induction tr) (auto simp: silent_def)

lemma dispatch_silent: "is_dispatch e \<Longrightarrow> silent e"
  by (cases e rule: is_dispatch.cases) (simp_all add: silent_def)

lemma dispatch_list:
  "list_all is_dispatch tr \<Longrightarrow>
   list_all in_flight tr \<and> assistant_calls tr = 0 \<and> jobs_updates tr = [] \<and> mutating_results tr = 0
   \<and> list_all is_tool_execution tr"
proof (induction tr)
  case Nil
  then show ?case by simp
next
  case (Cons e tr)
  then show ?case
    by (cases e rule: is_dispatch.cases) simp_all
qed

lemma count_mutation_effect:
  "count_mutation r jobs st = (j, st') \<Longrightarrow>
   store st' = store st \<and> world st' = world st
   \<and> (if didMutate r then j = Suc jobs \<and> trace st' = trace st @ [RefetchJobsUpdate (Suc jobs)]
      else j = jobs \<and> trace st' = trace st)"
  by (auto simp: count_mutation_def split: if_splits)

lemma result_message_effect:
  "result_message env modern tc r st = (msg, st') \<Longrightarrow> store st' = store st \<and> trace st' = trace st"
  by (auto simp: result_message_def split: if_splits prod.splits dest: gen_id_effect)

lemma execute_calls_effect:
  "execute_calls env modern userEmail calls history jobs st = (res, st') \<Longrightarrow>
   store st' = store st
   \<and> (\<exists>tr k. trace st' = trace st @ tr
        \<and> list_all is_tool_execution tr \<and> list_all in_flight tr \<and> assistant_calls tr = 0
        \<and> jobs_updates tr = [Suc jobs..<Suc (jobs + k)] \<and> mutating_results tr = k
        \<and> (\<forall>h' jobs'. res = Inr (h', jobs') \<longrightarrow>
              jobs' = jobs + k \<and> length h' = length history + length calls))"
proof (induction calls arbitrary: history jobs st)
  case Nil
  then have "st' = st" "res = Inr (history, jobs)" by auto
  then show ?case
    by (intro conjI exI [of _ "[]"] exI [of _ 0]) simp_all
next
  case (Cons toolCall rest)
  obtain r0 st1 where r0: "executeCalendarTool env toolCall userEmail
      (emit (Log (ToolCallStart (name (fn toolCall)))) st) = (r0, st1)"
    by (metis surj_pair)
  from executeCalendarTool_steps [OF r0] obtain tr1 where
    tr1: "store st1 = store st" "trace st1 = trace st @ [Log (ToolCallStart (name (fn toolCall)))] @ tr1"
      "list_all is_dispatch tr1"
    by (auto simp: steps_def)
  note d = dispatch_list [OF tr1(3)]
  show ?case
  proof (cases r0)
    case (Inl e)
    with Cons.prems r0 have "st' = st1" "res = Inl e"
      by simp_all
    with tr1 d show ?thesis
      by (intro conjI exI [of _ "[Log (ToolCallStart (name (fn toolCall)))] @ tr1"]
          exI [of _ 0]) simp_all
  next
    case (Inr r)
    obtain j st2 where j: "count_mutation r jobs
        (emit (Log (ToolCallResult (name (fn toolCall)) (didMutate r))) st1) = (j, st2)"
      by (metis surj_pair)
    obtain msg st3 where m: "result_message env modern toolCall r st2 = (msg, st3)"
      by (metis surj_pair)
    from Cons.prems r0 Inr j m
    have rest: "execute_calls env modern userEmail rest (history @ [msg]) j st3 = (res, st')"
      by simp
    note cm = count_mutation_effect [OF j]
    note rm = result_message_effect [OF m]
    from Cons.IH [OF rest] obtain tr k where
      ih: "store st' = store st3" "trace st' = trace st3 @ tr"
        "list_all is_tool_execution tr" "list_all in_flight tr" "assistant_calls tr = 0"
        "jobs_updates tr = [Suc j..<Suc (j + k)]" "mutating_results tr = k"
        "\<forall>h' jobs'. res = Inr (h', jobs') \<longrightarrow>
           jobs' = j + k \<and> length h' = length (history @ [msg]) + length rest"
      by blast
    show ?thesis
    proof (cases "didMutate r")
      case True
      with cm have j_eq: "j = Suc jobs"
        and t2: "trace st2 = trace st1 @ [Log (ToolCallResult (name (fn toolCall)) True), RefetchJobsUpdate (Suc jobs)]"
        by simp_all
      have upt: "Suc jobs # [Suc (Suc jobs)..<Suc (Suc (jobs + k))] = [Suc jobs..<Suc (jobs + Suc k)]"
        by (simp add: upt_conv_Cons)
      show ?thesis
        using tr1 d cm rm ih True j_eq t2 upt
        by (intro conjI exI [of _ "[Log (ToolCallStart (name (fn toolCall)))] @ tr1 @ [Log (ToolCallResult (name (fn toolCall)) True), RefetchJobsUpdate (Suc jobs)] @ tr"]
            exI [of _ "Suc k"]) simp_all
    next
      case False
      with cm have j_eq: "j = jobs"
        and t2: "trace st2 = trace st1 @ [Log (ToolCallResult (name (fn toolCall)) False)]"
        by simp_all
      show ?thesis
        using tr1 d cm rm ih False j_eq t2
        by (intro conjI exI [of _ "[Log (ToolCallStart (name (fn toolCall)))] @ tr1 @ [Log (ToolCallResult (name (fn toolCall)) False)] @ tr"]
            exI [of _ k]) simp_all
    qed
  qed
qed

lemma tool_round_effect:
  assumes "tool_round env question r sess cfg rnd history jobs st = (out, st')"
  shows "store st' = store st
   \<and> (\<exists>tr k. trace st' = trace st @ tr \<and> list_all in_flight tr \<and> assistant_calls tr = 1
        \<and> jobs_updates tr = [Suc jobs..<Suc (jobs + k)] \<and> mutating_results tr = k
        \<and> (case out of
              Continue h' j' \<Rightarrow> j' = jobs + k
            | Break h' j' how \<Rightarrow> j' = jobs \<and> k = 0
            | Throw e \<Rightarrow> True))"
proof -
  obtain res st1 where c: "call_model env
      (AssistantRequest cfg (current_user sess) history (Some (request_opts env)))
      (emit (StatusUpdate (ModelRound (rnd + 1))) st) = (res, st1)"
    by (metis surj_pair)
  from call_model_effect [OF c]
  have s1: "store st1 = store st"
    and t1: "trace st1 = trace st @ [StatusUpdate (ModelRound (rnd + 1)),
       ModelCall (AssistantRequest cfg (current_user sess) history (Some (request_opts env)))]"
    by simp_all
  let ?head = "[StatusUpdate (ModelRound (rnd + 1)),
       ModelCall (AssistantRequest cfg (current_user sess) history (Some (request_opts env)))]"
  have quiet: "store st' = store st1 \<Longrightarrow> trace st' = trace st1 @ tr \<Longrightarrow> list_all in_flight tr \<Longrightarrow>
      assistant_calls tr = 0 \<Longrightarrow> jobs_updates tr = [] \<Longrightarrow> mutating_results tr = 0 \<Longrightarrow>
      (case out of Continue h' j' \<Rightarrow> False | Break h' j' how \<Rightarrow> j' = jobs | Throw e \<Rightarrow> True) \<Longrightarrow>
      ?thesis" for tr
    using s1 t1
    by (intro conjI exI [of _ "?head @ tr"] exI [of _ 0])
       (simp_all split: round_outcome.splits)
  show ?thesis
  proof (cases res)
    case (Inl e)
    with assms c have "out = Throw e" "st' = st1"
      by (simp_all add: tool_round_def)
    then show ?thesis
      by (intro quiet [of "[]"]) simp_all
  next
    case (Inr completion)
    show ?thesis
    proof (cases "first_message completion")
      case (Inl e)
      with assms c Inr have "out = Throw e" "st' = st1"
        by (simp_all add: tool_round_def)
      then show ?thesis
        by (intro quiet [of "[]"]) simp_all
    next
      case first: (Inr mo)
      show ?thesis
      proof (cases mo)
        case None
        with assms c Inr first
        have "out = Break history jobs NoMessage"
          "st' = emit (Log (ModelEmptyResponse (rnd + 1))) (emit (TextAppend no_response) st1)"
          by (simp_all add: tool_round_def)
        then show ?thesis
          by (intro quiet [of "[TextAppend no_response, Log (ModelEmptyResponse (rnd + 1))]"])
             simp_all
      next
        case (Some m)
        let ?toolCalls = "case tool_calls m of None \<Rightarrow> [] | Some tcs \<Rightarrow> tcs"
        let ?st2 = "emit (Log (ToolDispatch (rnd + 1))) (emit (Log (ModelResponse (rnd + 1))) st1)"
        let ?calls = "executable_calls ?toolCalls (function_call m)"
        show ?thesis
        proof (cases "?toolCalls = [] \<and> function_call m = None")
          case True
          with assms c Inr first Some
          have "out = Break (history @ [Assistant (str_or (content m) no_response)]) jobs FinalAnswer"
            "st' = emit (Log (FinalResponse (rnd + 1)))
                     (emit (TextAppend (str_or (content m) no_response)) ?st2)"
            by (simp_all add: tool_round_def Let_def)
          then show ?thesis
            by (intro quiet [of "[Log (ModelResponse (rnd + 1)), Log (ToolDispatch (rnd + 1)),
                  TextAppend (str_or (content m) no_response), Log (FinalResponse (rnd + 1))]"])
               simp_all
        next
          case False
          show ?thesis
          proof (cases "shouldAskClarificationBeforeMutation (json_parse env) question r ?calls")
            case (Inl e)
            with assms c Inr first Some False have "out = Throw e" "st' = ?st2"
              by (simp_all add: tool_round_def Let_def split: if_splits)
            then show ?thesis
              by (intro quiet [of "[Log (ModelResponse (rnd + 1)), Log (ToolDispatch (rnd + 1))]"])
                 simp_all
          next
            case gate: (Inr deferred)
            show ?thesis
            proof (cases deferred)
              case True
              with assms c Inr first Some False gate
              have "out = Break (history @ [Assistant buildClarificationPrompt]) jobs Clarification"
                "st' = emit (Log (ClarificationRequired (rnd + 1)))
                         (emit (TextAppend buildClarificationPrompt) ?st2)"
                by (simp_all add: tool_round_def Let_def split: if_splits)
              then show ?thesis
                by (intro quiet [of "[Log (ModelResponse (rnd + 1)), Log (ToolDispatch (rnd + 1)),
                      TextAppend buildClarificationPrompt, Log (ClarificationRequired (rnd + 1))]"])
                   simp_all
            next
              case no: False
              obtain res3 st3 where x: "execute_calls env (?toolCalls \<noteq> []) (user_email sess) ?calls
                  (history @ request_message m ?toolCalls (function_call m)) jobs ?st2 = (res3, st3)"
                by (metis surj_pair)
              from assms c Inr first Some False gate no x
              have out: "st' = st3"
                "out = (case res3 of Inl e \<Rightarrow> Throw e | Inr (h1, j1) \<Rightarrow> Continue h1 j1)"
                by (auto simp add: tool_round_def Let_def split: sum.splits prod.splits if_splits
                    simp del: execute_calls.simps)
              from execute_calls_effect [OF x] obtain tr k where
                e: "store st3 = store ?st2" "trace st3 = trace ?st2 @ tr" "list_all in_flight tr"
                  "assistant_calls tr = 0" "jobs_updates tr = [Suc jobs..<Suc (jobs + k)]"
                  "mutating_results tr = k"
                  "\<forall>h' jobs'. res3 = Inr (h', jobs') \<longrightarrow> jobs' = jobs + k"
                by blast
              show ?thesis
                using s1 t1 e out
                by (intro conjI exI [of _ "?head @ [Log (ModelResponse (rnd + 1)),
                      Log (ToolDispatch (rnd + 1))] @ tr"] exI [of _ k])
                   (auto split: sum.splits)
            qed
          qed
        qed
      qed
    qed
  qed
qed

lemma tool_rounds_effect:
  "tool_rounds env question r sess cfg rnd history jobs st = (res, st') \<Longrightarrow>
   store st' = store st
   \<and> (\<exists>tr k. trace st' = trace st @ tr \<and> list_all in_flight tr
        \<and> assistant_calls tr \<le> MAX_TOOL_ROUNDS - rnd
        \<and> jobs_updates tr = [Suc jobs..<Suc (jobs + k)] \<and> mutating_results tr = k
        \<and> (\<forall>h' j how. res = Inr (h', j, how) \<longrightarrow> j = jobs + k))"
proof (induction env question r sess cfg rnd history jobs st rule: tool_rounds.induct)
  case (1 env question r sess cfg rnd history jobs st)
  show ?case
  proof (cases "rnd < MAX_TOOL_ROUNDS")
    case False
    with "1.prems" have "st' = st" "res = Inr (history, jobs, Exhausted)"
      by (simp_all add: tool_rounds.simps)
    then show ?thesis
      by (intro conjI exI [of _ "[]"] exI [of _ 0]) simp_all
  next
    case True
    obtain out st1 where out: "tool_round env question r sess cfg rnd history jobs st = (out, st1)"
      by (metis surj_pair)
    from tool_round_effect [OF out] obtain tr1 k1 where
      tr1: "store st1 = store st" "trace st1 = trace st @ tr1" "list_all in_flight tr1"
        "assistant_calls tr1 = 1"
        "jobs_updates tr1 = [Suc jobs..<Suc (jobs + k1)]" "mutating_results tr1 = k1"
        "case out of
              Continue h' j' \<Rightarrow> j' = jobs + k1
            | Break h' j' how \<Rightarrow> j' = jobs \<and> k1 = 0
            | Throw e \<Rightarrow> True"
      by blast
    show ?thesis
    proof (cases out)
      case (Throw e)
      with "1.prems" True out have "st' = st1" "res = Inl e"
        by (simp_all add: tool_rounds.simps)
      with tr1 Throw True show ?thesis
        by (intro conjI exI [of _ tr1] exI [of _ k1]) simp_all
    next
      case (Break h1 j1 how)
      with "1.prems" True out have "st' = st1" "res = Inr (h1, j1, how)"
        by (simp_all add: tool_rounds.simps)
      with tr1 Break True show ?thesis
        by (intro conjI exI [of _ tr1] exI [of _ 0]) simp_all
    next
      case (Continue h1 j1)
      with "1.prems" True out
      have rest: "tool_rounds env question r sess cfg (rnd + 1) h1 j1 st1 = (res, st')"
        by (simp add: tool_rounds.simps)
      from "1.IH" [OF True out [symmetric] Continue rest] obtain tr k where
        ih: "store st' = store st1" "trace st' = trace st1 @ tr" "list_all in_flight tr"
          "assistant_calls tr \<le> MAX_TOOL_ROUNDS - (rnd + 1)"
          "jobs_updates tr = [Suc j1..<Suc (j1 + k)]" "mutating_results tr = k"
          "\<forall>h' j how. res = Inr (h', j, how) \<longrightarrow> j = j1 + k"
        by blast
      from tr1(7) Continue have j1: "j1 = jobs + k1"
        by simp
      have upt: "[Suc jobs..<Suc (jobs + k1)] @ [Suc (jobs + k1)..<Suc (jobs + k1 + k)]
          = [Suc jobs..<Suc (jobs + (k1 + k))]"
        by (metis Suc_le_mono add.assoc add_Suc le_add1 upt_add_eq_append)
      show ?thesis
        using tr1 ih j1 upt True
        by (intro conjI exI [of _ "tr1 @ tr"] exI [of _ "k1 + k"]) auto
    qed
  qed
qed

section \<open>The time range extractor: properties\<close>

lemmas sample_eval =
  scripted_env_def initial_state_def sample_session_def sample_config_def no_content_def says_def
  requests_def thread_1_def call_of_def connection_error_def u16_def emit_def

lemmas request_eval =
  submitMessage_def get_session_def gen_id_def request_def request_rounds_def
  extractTimeRangeFromQuestion_def call_model_def load_config_def
  tool_rounds.simps tool_round_def MAX_TOOL_ROUNDS_def first_message_def first_content_def
  complete_streams_def stream_completion_def str_or_def request_opts_def
  current_user_def user_email_def Let_def

lemmas legacy_eval =
  submitMessage_legacy_def request_legacy_def request_rounds_legacy_def
  extractTimeRangeFromQuestion_legacy_def tool_rounds_legacy.simps tool_round_legacy_def

lemmas tool_eval =
  executeCalendarTool_def try_tool_def get_calendar_def delete_event_def call_calendar_def
  calendar_ok_def parseArgs_def sample_parse_def destructurable_def count_mutation_def
  result_message_def error_result_def unsupported_tool_def sample_stringify_def
  formatToolError_def error_object_def is_object_def api_error_def item_reason_def js_omap_def
  js_map_def date_iso_def nullish_def jor_def js_String_def fallback_def
  executable_calls_def request_message_def shouldAskClarificationBeforeMutation_def
  sufficientArgs_def mutation_names_def
  delete_E123_def get_calendar_call_def unknown_tool_call_def

lemma parse_range_Some:
  assumes "parse_range env cnt = Inr (Some x)"
  shows "\<exists>parsed startDate endDate. json_parse env cnt = Some parsed
             \<and> truthy (oprop parsed (u16 ''start'')) \<and> truthy (oprop parsed (u16 ''end''))
             \<and> new_Date env (oprop parsed (u16 ''start'')) = Some startDate
             \<and> new_Date env (oprop parsed (u16 ''end'')) = Some endDate
             \<and> startDate < endDate
             \<and> x = \<lparr>range_start = toISOString env startDate,
                     range_end = toISOString env endDate\<rparr>"
  using assms unfolding parse_range_def
  apply (cases "json_parse env cnt")
   apply simp
  subgoal for parsed
    by (cases parsed) (auto split: option.splits if_splits)
  done

text \<open>A range that the extractor returns has its end after its start.\<close>

lemma extractTimeRangeFromQuestion_range:
  assumes "fst (extractTimeRangeFromQuestion env question st) = Inr (Some x)"
  shows "\<exists>response cnt parsed startDate endDate.
             fst (call_model env (RangeRequest question (Some (request_opts env)))
                    (emit (Log RangeExtractStart) st)) = Inr response
             \<and> first_content response = Inr (Some cnt) \<and> cnt \<noteq> []
             \<and> json_parse env cnt = Some parsed
             \<and> truthy (oprop parsed (u16 ''start'')) \<and> truthy (oprop parsed (u16 ''end''))
             \<and> new_Date env (oprop parsed (u16 ''start'')) = Some startDate
             \<and> new_Date env (oprop parsed (u16 ''end'')) = Some endDate
             \<and> startDate < endDate
             \<and> x = \<lparr>range_start = toISOString env startDate,
                     range_end = toISOString env endDate\<rparr>"
  using assms unfolding extractTimeRangeFromQuestion_def
  by (auto split: prod.splits sum.splits option.splits if_splits dest!: parse_range_Some)

text \<open>
  The first copy returns when the request is rejected, and when it is answered with
  \<^verbatim>\<open>choices\<close>; it raises when the answer has none.
\<close>

lemma first_content_choices: "choices response \<noteq> None \<Longrightarrow> \<exists>c. first_content response = Inr c"
  by (auto simp: first_content_def first_message_def split: list.splits option.splits)

lemma extractTimeRangeFromQuestion_total:
  assumes "\<forall>response. fst (call_model env (RangeRequest question (Some (request_opts env)))
                             (emit (Log RangeExtractStart) st)) = Inr response
                       \<longrightarrow> choices response \<noteq> None"
  shows "\<exists>r. fst (extractTimeRangeFromQuestion env question st) = Inr r"
proof -
  obtain res st1 where c: "call_model env (RangeRequest question (Some (request_opts env)))
                             (emit (Log RangeExtractStart) st) = (res, st1)"
    by (metis surj_pair)
  show ?thesis
  proof (cases res)
    case (Inl e)
    with c show ?thesis
      by (simp add: extractTimeRangeFromQuestion_def)
  next
    case (Inr response)
    with c assms have "choices response \<noteq> None"
      by simp
    then obtain cnt where "first_content response = Inr cnt"
      using first_content_choices by blast
    with c Inr show ?thesis
      by (auto simp: extractTimeRangeFromQuestion_def split: option.splits sum.splits)
  qed
qed

lemma extractTimeRangeFromQuestion_raises:
  assumes "fst (call_model env (RangeRequest question (Some (request_opts env)))
                  (emit (Log RangeExtractStart) st)) = Inr response"
    and "choices response = None"
  shows "fst (extractTimeRangeFromQuestion env question st)
           = Inl (TypeError (Reading Undefined (u16 ''0'')))"
  using assms
  by (auto simp: extractTimeRangeFromQuestion_def first_content_def first_message_def
      split: prod.splits)

lemma extractTimeRangeFromQuestion_legacy_raises:
  "fst (call_model env (RangeRequest question None) st) = Inl e \<Longrightarrow>
   fst (extractTimeRangeFromQuestion_legacy env question st) = Inl e"
  by (auto simp: extractTimeRangeFromQuestion_legacy_def split: prod.splits sum.splits)

text \<open>
  Claim C4. The extractor never raises: whatever the completion request does, the result
  is a range with end after start, or absent. The first copy of the function (lines 176
  to 259) awaits the request inside a \<^verbatim>\<open>try\<close> and returns absent when it is rejected;
  a range that it returns has its end after its start
  (\<open>extractTimeRangeFromQuestion_range\<close>), and it returns for every answer that has
  \<^verbatim>\<open>choices\<close> (\<open>extractTimeRangeFromQuestion_total\<close>). The legacy copy (lines 1021 to
  1070) awaits the request outside any \<^verbatim>\<open>try\<close>: when the endpoint cannot be reached,
  it raises where the first copy returns absent.
\<close>

theorem legacy_extractor_propagates_rejection:
  "fst (extractTimeRangeFromQuestion_legacy unreachable question_review initial_state)
     = Inl connection_error
   \<and> fst (extractTimeRangeFromQuestion unreachable question_review initial_state) = Inr None"
  by (simp add: extractTimeRangeFromQuestion_legacy_def extractTimeRangeFromQuestion_def
      call_model_def unreachable_def scripted_env_def initial_state_def emit_def)

section \<open>The tool dispatcher: properties\<close>














text \<open>
  The diagnostic throws on a rejection whose list of reasons holds \<^verbatim>\<open>null\<close>, and the
  dispatcher with it: the deletion that the provider rejects in this way leaves
  \<^verbatim>\<open>executeCalendarTool\<close> as an exception.
\<close>

lemma null_reason_leaves_dispatcher:
  "formatToolError (scripted_env [] calendar_null_reason) null_reason_error
     = Inl (TypeError (Reading Null (u16 ''reason'')))
   \<and> fst (executeCalendarTool (scripted_env [] calendar_null_reason) delete_E123 None
            initial_state)
     = Inl (TypeError (Reading Null (u16 ''reason'')))"
  by (simp add: sample_eval tool_eval null_reason_error_def calendar_null_reason_def Let_def)




section \<open>The orchestration loop: properties\<close>

lemma silent_simps [simp]:
  "silent (Log RequestStart)" "silent (Log RangeExtractStart)" "silent (Log RangeExtractFailed)"
  "silent (Log RangeExtractSuccess)" "silent (Log RangeExtractInvalidJson)"
  "silent (Log RangeExtracted)" "silent (Log AssistantConfigLoaded)"
  "silent (ModelCall (RangeRequest q opts))" "silent (StatusUpdate l)"
  "silent (RefetchRangeUpdate r)"
  by (simp_all add: silent_def)

lemma extract_effect:
  "extractTimeRangeFromQuestion env question st = (res, st') \<Longrightarrow>
   store st' = store st \<and> (\<exists>tr. trace st' = trace st @ tr \<and> list_all silent tr)"
  unfolding extractTimeRangeFromQuestion_def
  by (auto split: prod.splits sum.splits option.splits if_splits dest!: call_model_effect)

lemma request_rounds_effect:
  assumes "request_rounds env question tid sess st = (res, st')"
  shows "store st' = store st
   \<and> (\<exists>tr k. trace st' = trace st @ tr \<and> list_all in_flight tr
        \<and> assistant_calls tr \<le> MAX_TOOL_ROUNDS
        \<and> jobs_updates tr = [Suc 0..<Suc k] \<and> mutating_results tr = k
        \<and> (\<forall>h j how. res = Inr (h, j, how) \<longrightarrow> j = k))"
proof -
  obtain r1 st1 where e: "extractTimeRangeFromQuestion env question
      (emit (StatusUpdate ExtractRange) (emit (Log RequestStart) st)) = (r1, st1)"
    by (metis surj_pair)
  from extract_effect [OF e] obtain tr1 where
    tr1: "store st1 = store st"
      "trace st1 = trace st @ [Log RequestStart, StatusUpdate ExtractRange] @ tr1"
      "list_all silent tr1"
    by auto
  note s1 = silent_list [OF tr1(3)]
  show ?thesis
  proof (cases r1)
    case (Inl err)
    with assms e have "st' = st1" "res = Inl err"
      by (simp_all add: request_rounds_def)
    with tr1 s1 show ?thesis
      by (intro conjI exI [of _ "[Log RequestStart, StatusUpdate ExtractRange] @ tr1"]
          exI [of _ 0]) simp_all
  next
    case (Inr extractedRange)
    obtain r2 st2 where l: "load_config env
        (emit (Log RangeExtracted) (emit (RefetchRangeUpdate extractedRange) st1)) = (r2, st2)"
      by (metis surj_pair)
    from load_config_effect [OF l] tr1 have
      tr2: "store st2 = store st"
        "trace st2 = trace st @ [Log RequestStart, StatusUpdate ExtractRange] @ tr1
           @ [RefetchRangeUpdate extractedRange, Log RangeExtracted]"
      by simp_all
    show ?thesis
    proof (cases r2)
      case (Inl err)
      with assms e Inr l have "st' = st2" "res = Inl err"
        by (simp_all add: request_rounds_def)
      with tr2 s1 show ?thesis
        by (intro conjI exI [of _ "[Log RequestStart, StatusUpdate ExtractRange] @ tr1
           @ [RefetchRangeUpdate extractedRange, Log RangeExtracted]"] exI [of _ 0]) simp_all
    next
      case cfg: (Inr cfg)
      let ?st3 = "emit (Log AssistantConfigLoaded) st2"
      from assms e Inr l cfg have
        "tool_rounds env question extractedRange sess cfg 0
           ((case store ?st3 tid of None \<Rightarrow> [] | Some h \<Rightarrow> h) @ [User question]) 0 ?st3
         = (res, st')"
        by (simp add: request_rounds_def Let_def)
      from tool_rounds_effect [OF this] obtain tr k where
        t: "store st' = store ?st3" "trace st' = trace ?st3 @ tr" "list_all in_flight tr"
          "assistant_calls tr \<le> MAX_TOOL_ROUNDS - 0"
          "jobs_updates tr = [Suc 0..<Suc (0 + k)]" "mutating_results tr = k"
          "\<forall>h' j how. res = Inr (h', j, how) \<longrightarrow> j = 0 + k"
        by blast
      with tr2 s1 show ?thesis
        by (intro conjI exI [of _ "[Log RequestStart, StatusUpdate ExtractRange] @ tr1
           @ [RefetchRangeUpdate extractedRange, Log RangeExtracted, Log AssistantConfigLoaded]
           @ tr"] exI [of _ k]) simp_all
    qed
  qed
qed

lemma effects_of_append: "trace st' = trace st @ tr \<Longrightarrow> effects_of st st' = tr"
  by (simp add: effects_of_def)

lemma request_returned:
  assumes "request_rounds env question tid sess st = (Inr (history, jobs, how), st1)"
  shows "store (request env question tid sess st) = (store st)(tid \<mapsto> slice_last_30 history)"
    and "\<exists>pre k. trace (request env question tid sess st) =
           trace st @ pre @ [StoreSet tid (slice_last_30 history),
                             Log (RequestComplete (length history))] @ stream_completion
         \<and> list_all in_flight pre \<and> assistant_calls pre \<le> MAX_TOOL_ROUNDS
         \<and> jobs_updates pre = [Suc 0..<Suc k] \<and> mutating_results pre = k"
proof -
  from request_rounds_effect [OF assms] obtain tr k where
    t: "store st1 = store st" "trace st1 = trace st @ tr" "list_all in_flight tr"
      "assistant_calls tr \<le> MAX_TOOL_ROUNDS" "jobs_updates tr = [Suc 0..<Suc k]"
      "mutating_results tr = k"
    by blast
  from assms t show "store (request env question tid sess st)
      = (store st)(tid \<mapsto> slice_last_30 history)"
    by (simp add: request_def complete_streams_def)
  from assms t show "\<exists>pre k. trace (request env question tid sess st) =
           trace st @ pre @ [StoreSet tid (slice_last_30 history),
                             Log (RequestComplete (length history))] @ stream_completion
         \<and> list_all in_flight pre \<and> assistant_calls pre \<le> MAX_TOOL_ROUNDS
         \<and> jobs_updates pre = [Suc 0..<Suc k] \<and> mutating_results pre = k"
    by (intro exI [of _ tr] exI [of _ k]) (simp add: request_def complete_streams_def)
qed

lemma request_thrown:
  assumes "request_rounds env question tid sess st = (Inl e, st1)"
  shows "store (request env question tid sess st) = store st"
    and "\<exists>pre k. trace (request env question tid sess st) = trace st @ pre @ stream_completion
         \<and> list_all in_flight pre \<and> assistant_calls pre \<le> MAX_TOOL_ROUNDS
         \<and> jobs_updates pre = [Suc 0..<Suc k] \<and> mutating_results pre = k"
proof -
  from request_rounds_effect [OF assms] obtain tr k where
    t: "store st1 = store st" "trace st1 = trace st @ tr" "list_all in_flight tr"
      "assistant_calls tr \<le> MAX_TOOL_ROUNDS" "jobs_updates tr = [Suc 0..<Suc k]"
      "mutating_results tr = k"
    by blast
  from assms t show "store (request env question tid sess st) = store st"
    by (simp add: request_def complete_streams_def)
  from assms t show "\<exists>pre k. trace (request env question tid sess st)
           = trace st @ pre @ stream_completion
         \<and> list_all in_flight pre \<and> assistant_calls pre \<le> MAX_TOOL_ROUNDS
         \<and> jobs_updates pre = [Suc 0..<Suc k] \<and> mutating_results pre = k"
    by (intro exI [of _ "tr @ [StatusUpdate ConversationError, Log RequestError,
          TextAppend (request_error_text env e)]"] exI [of _ k])
       (simp add: request_def complete_streams_def)
qed

lemma submitMessage_cases:
  obtains (early) "trace (snd (submitMessage env question threadId st)) = trace st"
      "store (snd (submitMessage env question threadId st)) = store st"
  | (body) sess tid st0 where "trace st0 = trace st" "store st0 = store st"
      "snd (submitMessage env question threadId st) = request env question tid sess st0"
proof -
  obtain r1 st1 where g: "get_session env st = (r1, st1)"
    by (metis surj_pair)
  note g1 = get_session_effect [OF g]
  obtain i1 st2 where i1: "gen_id env st1 = (i1, st2)"
    by (metis surj_pair)
  note g2 = gen_id_effect [OF i1]
  show ?thesis
  proof (cases r1)
    case (Inl e)
    with g i1 g1 g2 show ?thesis
      by (intro early) (simp_all add: submitMessage_def)
  next
    case (Inr sess)
    show ?thesis
    proof (cases sess)
      case None
      with Inr g i1 g1 g2 show ?thesis
        by (intro early) (simp_all add: submitMessage_def)
    next
      case (Some s)
      show ?thesis
      proof (cases "str_or (accessToken s) [] = []")
        case True
        with Some Inr g i1 g1 g2 show ?thesis
          by (intro early) (simp_all add: submitMessage_def)
      next
        case False
        obtain tid st3 where t: "(if threadId \<noteq> [] then (threadId, st1) else gen_id env st1)
            = (tid, st3)"
          by (metis surj_pair)
        obtain i2 st4 where i2: "gen_id env st3 = (i2, st4)"
          by (metis surj_pair)
        from t g1 have "trace st3 = trace st \<and> store st3 = store st"
          by (auto split: if_splits dest: gen_id_effect)
        with gen_id_effect [OF i2] have "trace st4 = trace st" "store st4 = store st"
          by simp_all
        moreover from False Some Inr g t i2
        have "snd (submitMessage env question threadId st) = request env question tid s st4"
          by (simp add: submitMessage_def)
        ultimately show ?thesis
          by (rule body)
      qed
    qed
  qed
qed

lemma request_effect:
  "\<exists>tr k. trace (request env question tid sess st) = trace st @ tr
     \<and> assistant_calls tr \<le> MAX_TOOL_ROUNDS
     \<and> jobs_updates tr = [Suc 0..<Suc k] \<and> mutating_results tr = k"
proof -
  obtain res st1 where r: "request_rounds env question tid sess st = (res, st1)"
    by (metis surj_pair)
  show ?thesis
  proof (cases res)
    case (Inl e)
    with r request_thrown(2) [of env question tid sess st e st1] obtain pre k where
      "trace (request env question tid sess st) = trace st @ pre @ stream_completion"
      "assistant_calls pre \<le> MAX_TOOL_ROUNDS" "jobs_updates pre = [Suc 0..<Suc k]"
      "mutating_results pre = k"
      by blast
    then show ?thesis
      by (intro exI [of _ "pre @ stream_completion"] exI [of _ k])
         (simp add: stream_completion_def)
  next
    case (Inr x)
    then obtain history jobs how where "res = Inr (history, jobs, how)"
      by (cases x) auto
    with r request_returned(2) [of env question tid sess st history jobs how st1]
    obtain pre k where
      "trace (request env question tid sess st) = trace st @ pre @
         [StoreSet tid (slice_last_30 history), Log (RequestComplete (length history))]
         @ stream_completion"
      "assistant_calls pre \<le> MAX_TOOL_ROUNDS" "jobs_updates pre = [Suc 0..<Suc k]"
      "mutating_results pre = k"
      by blast
    then show ?thesis
      by (intro exI [of _ "pre @ [StoreSet tid (slice_last_30 history),
            Log (RequestComplete (length history))] @ stream_completion"] exI [of _ k])
         (simp add: stream_completion_def)
  qed
qed

lemma submitMessage_effect:
  "\<exists>tr k. trace (snd (submitMessage env question threadId st)) = trace st @ tr
     \<and> assistant_calls tr \<le> MAX_TOOL_ROUNDS
     \<and> jobs_updates tr = [Suc 0..<Suc k] \<and> mutating_results tr = k"
proof (cases rule: submitMessage_cases [of env question threadId st])
  case early
  then show ?thesis
    by (intro exI [of _ "[]"] exI [of _ 0]) simp
next
  case (body sess tid st0)
  with request_effect [of env question tid sess st0] show ?thesis
    by simp
qed

text \<open>
  Claim C9. Whatever the model answers, one request makes at most 8 requests to the
  assistant completion endpoint. (The request of the time range extractor comes before
  the loop and is not one of them.)
\<close>

theorem at_most_eight_model_rounds:
  "assistant_calls (effects_of st (snd (submitMessage env question threadId st))) \<le> 8"
proof -
  from submitMessage_effect [of env question threadId st] obtain tr where
    "trace (snd (submitMessage env question threadId st)) = trace st @ tr"
    "assistant_calls tr \<le> MAX_TOOL_ROUNDS"
    by blast
  then show ?thesis
    by (simp add: effects_of_append MAX_TOOL_ROUNDS_def)
qed



text \<open>The bound is reached when the model requests a tool in every round.\<close>

lemma eight_rounds_reached:
  "assistant_calls (trace (snd (submitMessage looping question_delete thread_1 initial_state))) = 8"
  by (simp add: looping_def question_delete_def request_eval sample_eval tool_eval pattern_eval)


lemma slice_last_30_length: "length (slice_last_30 xs) = min 30 (length xs)"
  by (simp add: slice_last_30_def)

text \<open>
  Claim C6, amended. On every exit of the loop that is no exception (final answer, no
  message from the model, clarification, exhausted round budget) the history is cut to
  its last 30 messages and written to the thread store, and only then are the streams
  completed. When an exception reaches the top-level \<^verbatim>\<open>catch\<close>, the store is left as
  it was, and the streams are completed all the same.
\<close>

theorem history_stored_before_completion:
  "case fst (request_rounds env question tid sess st) of
     Inr (history, jobs, how) \<Rightarrow>
       store (request env question tid sess st) = (store st)(tid \<mapsto> slice_last_30 history)
       \<and> length (slice_last_30 history) = min 30 (length history)
       \<and> (\<exists>pre. effects_of st (request env question tid sess st) =
                  pre @ [StoreSet tid (slice_last_30 history),
                         Log (RequestComplete (length history))] @ stream_completion
                \<and> list_all in_flight pre)
   | Inl e \<Rightarrow>
       store (request env question tid sess st) = store st
       \<and> (\<exists>pre. effects_of st (request env question tid sess st) = pre @ stream_completion
                \<and> list_all in_flight pre)"
proof -
  obtain res st1 where r: "request_rounds env question tid sess st = (res, st1)"
    by (metis surj_pair)
  show ?thesis
  proof (cases res)
    case (Inl e)
    from request_thrown [OF r [unfolded Inl]] r Inl show ?thesis
      by (auto simp: effects_of_append)
  next
    case (Inr x)
    then obtain history jobs how where x: "res = Inr (history, jobs, how)"
      by (cases x) auto
    from request_returned [OF r [unfolded x]] r x show ?thesis
      by (auto simp: effects_of_append slice_last_30_length)
  qed
qed

theorem history_stored_before_completion_witness:
  "store (request answering question_delete thread_1 sample_session full_thread) thread_1
     = Some (replicate 28 (User question_review)
             @ [User question_delete, Assistant (u16 ''Done.'')])
   \<and> drop 13 (trace (request answering question_delete thread_1 sample_session full_thread))
     = StoreSet thread_1 (replicate 28 (User question_review)
                          @ [User question_delete, Assistant (u16 ''Done.'')])
       # Log (RequestComplete 32) # stream_completion"
proof -
  let ?h = "replicate 30 (User question_review) @ [User question_delete, Assistant (u16 ''Done.'')]"
  have rounds: "fst (request_rounds answering question_delete thread_1 sample_session full_thread)
      = Inr (?h, 0, FinalAnswer)"
    by (simp add: answering_def full_thread_def request_eval sample_eval)
  have cut: "slice_last_30 ?h
      = replicate 28 (User question_review) @ [User question_delete, Assistant (u16 ''Done.'')]"
    by (simp add: slice_last_30_def)
  from history_stored_before_completion
    [of answering question_delete thread_1 sample_session full_thread] rounds cut
  have s: "store (request answering question_delete thread_1 sample_session full_thread)
        = (store full_thread)(thread_1 \<mapsto> replicate 28 (User question_review)
             @ [User question_delete, Assistant (u16 ''Done.'')])"
    by auto
  show ?thesis
    using s
    by (simp add: answering_def full_thread_def request_eval sample_eval slice_last_30_def)
qed

text \<open>
  Claim C6, as stated: on the top-level error path too, the truncated history is written
  to the store. It fails when the completion endpoint rejects the request of the first
  round: the streams are completed, and nothing was written for the thread.
\<close>

theorem error_path_counterexample:
  "store (snd (submitMessage failing_round question_review thread_1 initial_state)) thread_1 = None
   \<and> filter is_store_set
       (trace (snd (submitMessage failing_round question_review thread_1 initial_state))) = []
   \<and> drop 12 (trace (snd (submitMessage failing_round question_review thread_1 initial_state)))
       = stream_completion"
  by (simp add: failing_round_def request_eval sample_eval)

lemma answered_snoc_text: "answered k history \<Longrightarrow> answered k (history @ [Assistant text])"
  by (induction k history rule: answered.induct) auto




lemma schedule_event_legacy_store:
  "schedule_event_legacy env args userEmail st = (res, st') \<Longrightarrow> store st' = store st"
  by (auto simp: schedule_event_legacy_def Let_def split: prod.splits sum.splits if_splits
      dest!: call_calendar_effect)

lemma edit_event_legacy_store:
  "edit_event_legacy env args st = (res, st') \<Longrightarrow> store st' = store st"
  by (auto simp: edit_event_legacy_def split: prod.splits sum.splits if_splits
      dest!: call_calendar_effect)

lemma try_tool_legacy_store:
  "try_tool_legacy env nm args userEmail st = (res, st') \<Longrightarrow> store st' = store st"
  unfolding try_tool_legacy_def
  by (auto split: if_splits dest: schedule_event_legacy_store edit_event_legacy_store
      get_calendar_steps delete_event_steps simp: steps_def)

lemma executeCalendarTool_legacy_effect:
  "executeCalendarTool_legacy env toolCall userEmail st = (res, st') \<Longrightarrow>
   store st' = store st \<and> (\<exists>r. res = Inr r)"
  by (auto simp: executeCalendarTool_legacy_def Let_def split: prod.splits sum.splits
      dest!: try_tool_legacy_store)

lemma execute_calls_legacy_store:
  "execute_calls_legacy env modern userEmail calls history jobs st = (res, st') \<Longrightarrow>
   store st' = store st"
proof (induction calls arbitrary: history jobs st)
  case Nil
  then show ?case by simp
next
  case (Cons toolCall rest)
  obtain r0 st1 where r0: "executeCalendarTool_legacy env toolCall userEmail st = (r0, st1)"
    by (metis surj_pair)
  from executeCalendarTool_legacy_effect [OF r0] obtain r where
    r: "r0 = Inr r" "store st1 = store st"
    by auto
  obtain j st2 where j: "count_mutation r jobs st1 = (j, st2)"
    by (metis surj_pair)
  obtain msg st3 where m: "result_message env modern toolCall r st2 = (msg, st3)"
    by (metis surj_pair)
  from Cons.prems r0 r j m
  have "execute_calls_legacy env modern userEmail rest (history @ [msg]) j st3 = (res, st')"
    by simp
  from Cons.IH [OF this] count_mutation_effect [OF j] result_message_effect [OF m] r
  show ?case by simp
qed

lemma tool_round_legacy_store:
  "tool_round_legacy env sess cfg rnd history jobs st = (out, st') \<Longrightarrow> store st' = store st"
  unfolding tool_round_legacy_def Let_def
  by (auto split: prod.splits sum.splits option.splits if_splits
      dest!: call_model_effect execute_calls_legacy_store)

lemma tool_rounds_legacy_store:
  "tool_rounds_legacy env sess cfg rnd history jobs st = (res, st') \<Longrightarrow> store st' = store st"
proof (induction env sess cfg rnd history jobs st rule: tool_rounds_legacy.induct)
  case (1 env sess cfg rnd history jobs st)
  show ?case
  proof (cases "rnd < MAX_TOOL_ROUNDS")
    case False
    with "1.prems" show ?thesis
      by (simp add: tool_rounds_legacy.simps)
  next
    case True
    obtain out st1 where out: "tool_round_legacy env sess cfg rnd history jobs st = (out, st1)"
      by (metis surj_pair)
    note s1 = tool_round_legacy_store [OF out]
    show ?thesis
    proof (cases out)
      case (Continue h1 j1)
      with "1.prems" True out
      have "tool_rounds_legacy env sess cfg (rnd + 1) h1 j1 st1 = (res, st')"
        by (simp add: tool_rounds_legacy.simps)
      from "1.IH" [OF True out [symmetric] Continue this] s1 show ?thesis
        by simp
    qed (use "1.prems" True out s1 in \<open>simp_all add: tool_rounds_legacy.simps\<close>)
  qed
qed

lemma extract_legacy_store:
  "extractTimeRangeFromQuestion_legacy env question st = (res, st') \<Longrightarrow> store st' = store st"
  unfolding extractTimeRangeFromQuestion_legacy_def
  by (auto split: prod.splits sum.splits option.splits if_splits dest!: call_model_effect)

lemma request_rounds_legacy_store:
  "request_rounds_legacy env question tid sess st = (res, st') \<Longrightarrow> store st' = store st"
  unfolding request_rounds_legacy_def
  by (auto split: prod.splits sum.splits
      dest!: extract_legacy_store load_config_effect tool_rounds_legacy_store)

lemma request_legacy_store:
  "store (request_legacy env question tid sess st) = store st
   \<or> (\<exists>h. store (request_legacy env question tid sess st) = (store st)(tid \<mapsto> slice_last_30 h))"
proof -
  obtain res st1 where r: "request_rounds_legacy env question tid sess st = (res, st1)"
    by (metis surj_pair)
  from request_rounds_legacy_store [OF r] r show ?thesis
    by (auto simp: request_legacy_def complete_streams_def split: sum.splits prod.splits)
qed

lemma request_store:
  "store (request env question tid sess st) = store st
   \<or> (\<exists>h. store (request env question tid sess st) = (store st)(tid \<mapsto> slice_last_30 h))"
proof -
  obtain res st1 where r: "request_rounds env question tid sess st = (res, st1)"
    by (metis surj_pair)
  from request_rounds_effect [OF r] r show ?thesis
    by (auto simp: request_def complete_streams_def split: sum.splits prod.splits)
qed

lemma submitMessage_store:
  "store (snd (submitMessage env question threadId st)) = store st
   \<or> (\<exists>tid h. store (snd (submitMessage env question threadId st))
               = (store st)(tid \<mapsto> slice_last_30 h))"
proof (cases rule: submitMessage_cases [of env question threadId st])
  case early
  then show ?thesis by simp
next
  case (body sess tid st0)
  with request_store [of env question tid sess st0] show ?thesis
    by auto
qed

lemma submitMessage_legacy_cases:
  obtains (early) "store (snd (submitMessage_legacy env question threadId st)) = store st"
  | (body) sess tid st0 where "store st0 = store st"
      "snd (submitMessage_legacy env question threadId st)
         = request_legacy env question tid sess st0"
proof -
  obtain r1 st1 where g: "get_session env st = (r1, st1)"
    by (metis surj_pair)
  note g1 = get_session_effect [OF g]
  obtain i1 st2 where i1: "gen_id env st1 = (i1, st2)"
    by (metis surj_pair)
  note g2 = gen_id_effect [OF i1]
  show ?thesis
  proof (cases r1)
    case (Inl e)
    with g i1 g1 g2 show ?thesis
      by (intro early) (simp_all add: submitMessage_legacy_def)
  next
    case (Inr sess)
    show ?thesis
    proof (cases sess)
      case None
      with Inr g i1 g1 g2 show ?thesis
        by (intro early) (simp_all add: submitMessage_legacy_def)
    next
      case (Some s)
      show ?thesis
      proof (cases "str_or (accessToken s) [] = []")
        case True
        with Some Inr g i1 g1 g2 show ?thesis
          by (intro early) (simp_all add: submitMessage_legacy_def)
      next
        case False
        obtain tid st3 where t: "(if threadId \<noteq> [] then (threadId, st1) else gen_id env st1)
            = (tid, st3)"
          by (metis surj_pair)
        obtain i2 st4 where i2: "gen_id env st3 = (i2, st4)"
          by (metis surj_pair)
        from t g1 have "store st3 = store st"
          by (auto split: if_splits dest: gen_id_effect)
        with gen_id_effect [OF i2] have "store st4 = store st"
          by simp
        moreover from False Some Inr g t i2
        have "snd (submitMessage_legacy env question threadId st)
                = request_legacy env question tid s st4"
          by (simp add: submitMessage_legacy_def)
        ultimately show ?thesis
          by (rule body)
      qed
    qed
  qed
qed

lemma submitMessage_legacy_store:
  "store (snd (submitMessage_legacy env question threadId st)) = store st
   \<or> (\<exists>tid h. store (snd (submitMessage_legacy env question threadId st))
               = (store st)(tid \<mapsto> slice_last_30 h))"
proof (cases rule: submitMessage_legacy_cases [of env question threadId st])
  case early
  then show ?thesis by simp
next
  case (body sess tid st0)
  with request_legacy_store [of env question tid sess st0] show ?thesis
    by auto
qed

lemma bounded_step:
  assumes "\<forall>t h. store st t = Some h \<longrightarrow> length h \<le> 30"
    and "store st' = store st \<or> (\<exists>tid h. store st' = (store st)(tid \<mapsto> slice_last_30 h))"
  shows "\<forall>t h. store st' t = Some h \<longrightarrow> length h \<le> 30"
  using assms by (auto simp: slice_last_30_def split: if_splits)

text \<open>
  Claim C7. Every write to the thread store is a history cut to its last 30 messages:
  when all stored histories have at most 30 messages, they still have after any sequence
  of requests, in the first copy of the module and in the legacy one.
\<close>

theorem stored_histories_bounded:
  assumes "\<forall>t h. store st t = Some h \<longrightarrow> length h \<le> 30"
  shows "(\<forall>t h. store (submit_all env reqs st) t = Some h \<longrightarrow> length h \<le> 30)
       \<and> (\<forall>t h. store (submit_all_legacy env reqs st) t = Some h \<longrightarrow> length h \<le> 30)"
proof
  from assms show "\<forall>t h. store (submit_all env reqs st) t = Some h \<longrightarrow> length h \<le> 30"
  proof (induction reqs arbitrary: st)
    case Nil
    then show ?case by simp
  next
    case (Cons req reqs)
    obtain question threadId where req: "req = (question, threadId)"
      by (cases req)
    from bounded_step [OF Cons.prems submitMessage_store [of env question threadId st]]
    have "\<forall>t h. store (snd (submitMessage env question threadId st)) t = Some h \<longrightarrow> length h \<le> 30" .
    from Cons.IH [OF this] req show ?case by simp
  qed
next
  from assms show "\<forall>t h. store (submit_all_legacy env reqs st) t = Some h \<longrightarrow> length h \<le> 30"
  proof (induction reqs arbitrary: st)
    case Nil
    then show ?case by simp
  next
    case (Cons req reqs)
    obtain question threadId where req: "req = (question, threadId)"
      by (cases req)
    from bounded_step [OF Cons.prems submitMessage_legacy_store [of env question threadId st]]
    have "\<forall>t h. store (snd (submitMessage_legacy env question threadId st)) t = Some h
            \<longrightarrow> length h \<le> 30" .
    from Cons.IH [OF this] req show ?case by simp
  qed
qed

theorem stored_histories_bounded_witness:
  "map_option length (store (submit_all answering [(question_delete, thread_1)] full_thread) thread_1)
     = Some 30
   \<and> map_option length
        (store (submit_all_legacy answering [(question_delete, thread_1)] full_thread) thread_1)
     = Some 30"
proof -
  have full: "\<forall>t h. store full_thread t = Some h \<longrightarrow> length h \<le> 30"
    by (simp add: full_thread_def)
  have "\<exists>h. store (submit_all answering [(question_delete, thread_1)] full_thread) thread_1 = Some h
          \<and> 30 \<le> length h"
    by (simp add: answering_def full_thread_def request_eval sample_eval slice_last_30_def)
  moreover
  have "\<exists>h. store (submit_all_legacy answering [(question_delete, thread_1)] full_thread) thread_1
            = Some h \<and> 30 \<le> length h"
    by (simp add: answering_def full_thread_def request_eval legacy_eval sample_eval
        slice_last_30_def)
  ultimately show ?thesis
    using stored_histories_bounded [OF full, of answering "[(question_delete, thread_1)]"]
    by (auto simp: le_antisym)
qed


section \<open>Recorded requests are answered\<close>

text \<open>
  The invariant of section 3 holds of every stored history: what the loop records in a
  round is a message with requests followed by one result for each, and cutting a
  history to its last messages only removes requests.
\<close>

lemma answered_results: "list_all is_result ms \<Longrightarrow> answered k ms = (k \<le> length ms)"
proof (induction ms arbitrary: k)
  case Nil
  then show ?case by simp
next
  case (Cons m ms)
  then have r: "is_result m" and ih: "\<And>j. answered j ms = (j \<le> length ms)"
    by simp_all
  from r show ?case
  proof (cases m)
    case (Tool i c)
    have "(k - 1 \<le> length ms) = (k \<le> Suc (length ms))"
      by arith
    with Tool ih [of "k - 1"] show ?thesis by simp
  next
    case (Function n c)
    have "(k - 1 \<le> length ms) = (k \<le> Suc (length ms))"
      by arith
    with Function ih [of "k - 1"] show ?thesis by simp
  qed simp_all
qed

lemma answered_weaken: "answered k ms \<Longrightarrow> k' \<le> k \<Longrightarrow> answered k' ms"
  by (induction k ms arbitrary: k' rule: answered.induct) auto

lemma answered_zero: "answered k ms \<Longrightarrow> answered 0 ms"
  by (rule answered_weaken) simp_all

lemma answered_tail: "answered k (m # ms) \<Longrightarrow> answered 0 ms"
  by (cases m) (auto dest: answered_zero)

lemma answered_drop: "answered k ms \<Longrightarrow> answered 0 (drop n ms)"
proof (induction n arbitrary: k ms)
  case 0
  then show ?case by (simp add: answered_zero)
next
  case (Suc n)
  show ?case
  proof (cases ms)
    case Nil
    with Suc.prems show ?thesis by (simp add: answered_zero)
  next
    case (Cons m ms')
    with Suc.prems have "answered 0 ms'"
      by (simp only: answered_tail)
    from Suc.IH [OF this] Cons show ?thesis by simp
  qed
qed

lemma answered_snoc_user: "answered k history \<Longrightarrow> answered k (history @ [User question])"
  by (induction k history rule: answered.induct) auto

lemma answered_request:
  assumes "answered k history" and "list_all is_result ms"
    and "req = AssistantToolCalls c tcs \<and> length tcs \<le> length ms
         \<or> req = AssistantFunctionCall c f \<and> 1 \<le> length ms"
  shows "answered k (history @ req # ms)"
  using assms(1)
proof (induction k history rule: answered.induct)
  case (1 k)
  with assms(2,3) show ?case
    by (auto simp: answered_results)
qed auto

lemma result_message_is_result:
  "result_message env modern toolCall r st = (msg, st') \<Longrightarrow> is_result msg"
  by (auto simp: result_message_def split: if_splits prod.splits)

lemma execute_calls_messages:
  "execute_calls env modern userEmail calls history jobs st = (Inr (h', j'), st') \<Longrightarrow>
   \<exists>ms. h' = history @ ms \<and> length ms = length calls \<and> list_all is_result ms"
proof (induction calls arbitrary: history jobs st)
  case Nil
  then show ?case by simp
next
  case (Cons toolCall rest)
  obtain r0 st1 where r0: "executeCalendarTool env toolCall userEmail
      (emit (Log (ToolCallStart (name (fn toolCall)))) st) = (r0, st1)"
    by (metis surj_pair)
  from Cons.prems r0 obtain r where r: "r0 = Inr r"
    by (cases r0) simp_all
  obtain j st2 where j: "count_mutation r jobs
      (emit (Log (ToolCallResult (name (fn toolCall)) (didMutate r))) st1) = (j, st2)"
    by (metis surj_pair)
  obtain msg st3 where m: "result_message env modern toolCall r st2 = (msg, st3)"
    by (metis surj_pair)
  from Cons.prems r0 r j m
  have "execute_calls env modern userEmail rest (history @ [msg]) j st3 = (Inr (h', j'), st')"
    by simp
  from Cons.IH [OF this] obtain ms where
    "h' = (history @ [msg]) @ ms" "length ms = length rest" "list_all is_result ms"
    by blast
  with result_message_is_result [OF m] show ?case
    by (intro exI [of _ "msg # ms"]) simp
qed

lemma tool_round_Break:
  "tool_round env question r sess cfg rnd history jobs st = (Break h' j' how, st') \<Longrightarrow>
   h' = history \<or> (\<exists>c. h' = history @ [Assistant c])"
  unfolding tool_round_def Let_def
  by (auto split: prod.splits sum.splits option.splits if_splits simp del: execute_calls.simps)

lemma tool_round_Continue:
  assumes "tool_round env question r sess cfg rnd history jobs st = (Continue h' j', st')"
  shows "\<exists>m toolCalls st2.
     \<not> (toolCalls = [] \<and> function_call m = None)
     \<and> execute_calls env (toolCalls \<noteq> []) (user_email sess)
          (executable_calls toolCalls (function_call m))
          (history @ request_message m toolCalls (function_call m)) jobs st2
        = (Inr (h', j'), st')"
proof -
  obtain res st1 where c: "call_model env
      (AssistantRequest cfg (current_user sess) history (Some (request_opts env)))
      (emit (StatusUpdate (ModelRound (rnd + 1))) st) = (res, st1)"
    by (metis surj_pair)
  from assms c obtain completion where res: "res = Inr completion"
    by (cases res) (simp_all add: tool_round_def)
  from assms c res obtain m where m: "first_message completion = Inr (Some m)"
    by (auto simp: tool_round_def split: sum.splits option.splits)
  let ?toolCalls = "case tool_calls m of None \<Rightarrow> [] | Some tcs \<Rightarrow> tcs"
  let ?st2 = "emit (Log (ToolDispatch (rnd + 1))) (emit (Log (ModelResponse (rnd + 1))) st1)"
  from assms c res m have some: "\<not> (?toolCalls = [] \<and> function_call m = None)"
    by (auto simp: tool_round_def Let_def simp del: execute_calls.simps split: if_splits)
  with assms c res m
  have "execute_calls env (?toolCalls \<noteq> []) (user_email sess)
          (executable_calls ?toolCalls (function_call m))
          (history @ request_message m ?toolCalls (function_call m)) jobs ?st2
        = (Inr (h', j'), st')"
    by (simp add: tool_round_def Let_def split: sum.splits if_splits prod.splits
        del: execute_calls.simps)
  with some show ?thesis
    by blast
qed

lemma tool_round_answered:
  assumes "tool_round env question r sess cfg rnd history jobs st = (out, st')"
    and "answered 0 history"
  shows "case out of Break h' j' how \<Rightarrow> answered 0 h' | Continue h' j' \<Rightarrow> answered 0 h'
         | Throw e \<Rightarrow> True"
proof (cases out)
  case (Break h' j' how)
  with assms(1) tool_round_Break [of env question r sess cfg rnd history jobs st h' j' how st']
  have "h' = history \<or> (\<exists>c. h' = history @ [Assistant c])"
    by simp
  with assms(2) Break show ?thesis
    by (auto simp: answered_snoc_text)
next
  case (Continue h' j')
  with assms(1) tool_round_Continue [of env question r sess cfg rnd history jobs st h' j' st']
  obtain m toolCalls st2 where
    some: "\<not> (toolCalls = [] \<and> function_call m = None)" and
    ex: "execute_calls env (toolCalls \<noteq> []) (user_email sess)
          (executable_calls toolCalls (function_call m))
          (history @ request_message m toolCalls (function_call m)) jobs st2
        = (Inr (h', j'), st')"
    by auto
  from execute_calls_messages [OF ex] obtain ms where
    ms: "h' = (history @ request_message m toolCalls (function_call m)) @ ms"
      "length ms = length (executable_calls toolCalls (function_call m))"
      "list_all is_result ms"
    by blast
  have "answered 0 h'"
  proof (cases "toolCalls = []")
    case False
    with ms have "h' = history @ AssistantToolCalls (str_or (content m) []) toolCalls # ms"
      "length toolCalls \<le> length ms"
      by (simp_all add: request_message_def executable_calls_def)
    with assms(2) ms(3) show ?thesis
      by (simp add: answered_request)
  next
    case True
    with some obtain f where f: "function_call m = Some f"
      by auto
    with True ms have "h' = history @ AssistantFunctionCall (str_or (content m) []) f # ms"
      "1 \<le> length ms"
      by (simp_all add: request_message_def executable_calls_def)
    with assms(2) ms(3) show ?thesis
      by (simp add: answered_request)
  qed
  with Continue show ?thesis by simp
next
  case (Throw e)
  then show ?thesis by simp
qed

lemma tool_rounds_answered:
  "tool_rounds env question r sess cfg rnd history jobs st = (Inr (h', j', how), st') \<Longrightarrow>
   answered 0 history \<Longrightarrow> answered 0 h'"
proof (induction env question r sess cfg rnd history jobs st rule: tool_rounds.induct)
  case (1 env question r sess cfg rnd history jobs st)
  show ?case
  proof (cases "rnd < MAX_TOOL_ROUNDS")
    case False
    with "1.prems" show ?thesis
      by (simp add: tool_rounds.simps)
  next
    case True
    obtain out st1 where out: "tool_round env question r sess cfg rnd history jobs st = (out, st1)"
      by (metis surj_pair)
    note a = tool_round_answered [OF out "1.prems"(2)]
    show ?thesis
    proof (cases out)
      case (Continue h1 j1)
      with "1.prems" True out
      have "tool_rounds env question r sess cfg (rnd + 1) h1 j1 st1 = (Inr (h', j', how), st')"
        by (simp add: tool_rounds.simps)
      from "1.IH" [OF True out [symmetric] Continue this] a Continue show ?thesis
        by simp
    qed (use "1.prems" True out a in \<open>auto simp: tool_rounds.simps\<close>)
  qed
qed

lemma request_rounds_returned:
  assumes "request_rounds env question tid sess st = (Inr x, st1)"
  shows "\<exists>extractedRange cfg st3. store st3 = store st
     \<and> tool_rounds env question extractedRange sess cfg 0
          ((case store st3 tid of None \<Rightarrow> [] | Some h \<Rightarrow> h) @ [User question]) 0 st3
        = (Inr x, st1)"
proof -
  obtain r1 s1 where e: "extractTimeRangeFromQuestion env question
      (emit (StatusUpdate ExtractRange) (emit (Log RequestStart) st)) = (r1, s1)"
    by (metis surj_pair)
  from assms e obtain extractedRange where r1: "r1 = Inr extractedRange"
    by (cases r1) (simp_all add: request_rounds_def)
  obtain r2 s2 where l: "load_config env
      (emit (Log RangeExtracted) (emit (RefetchRangeUpdate extractedRange) s1)) = (r2, s2)"
    by (metis surj_pair)
  from assms e r1 l obtain cfg where r2: "r2 = Inr cfg"
    by (cases r2) (simp_all add: request_rounds_def)
  from extract_effect [OF e] load_config_effect [OF l]
  have "store (emit (Log AssistantConfigLoaded) s2) = store st"
    by simp
  moreover from assms e r1 l r2
  have "tool_rounds env question extractedRange sess cfg 0
          ((case store (emit (Log AssistantConfigLoaded) s2) tid of None \<Rightarrow> [] | Some h \<Rightarrow> h)
           @ [User question]) 0 (emit (Log AssistantConfigLoaded) s2)
        = (Inr x, st1)"
    by (simp add: request_rounds_def Let_def)
  ultimately show ?thesis
    by blast
qed

lemma request_keeps_answered:
  assumes "\<forall>t h. store st t = Some h \<longrightarrow> answered 0 h"
  shows "\<forall>t h. store (request env question tid sess st) t = Some h \<longrightarrow> answered 0 h"
proof -
  obtain res st1 where r: "request_rounds env question tid sess st = (res, st1)"
    by (metis surj_pair)
  show ?thesis
  proof (cases res)
    case (Inl err)
    from request_thrown(1) [OF r [unfolded Inl]] assms show ?thesis
      by simp
  next
    case (Inr x)
    then obtain h' j' how where x: "res = Inr (h', j', how)"
      by (cases x) auto
    from request_rounds_returned [OF r [unfolded x]] obtain extractedRange cfg st3 where
      s: "store st3 = store st" and
      t: "tool_rounds env question extractedRange sess cfg 0
             ((case store st3 tid of None \<Rightarrow> [] | Some h \<Rightarrow> h) @ [User question]) 0 st3
            = (Inr (h', j', how), st1)"
      by blast
    from assms s have "answered 0 (case store st3 tid of None \<Rightarrow> [] | Some h \<Rightarrow> h)"
      by (cases "store st tid") simp_all
    then have "answered 0 ((case store st3 tid of None \<Rightarrow> [] | Some h \<Rightarrow> h) @ [User question])"
      by (rule answered_snoc_user)
    with t have "answered 0 h'"
      by (rule tool_rounds_answered)
    then have "answered 0 (slice_last_30 h')"
      unfolding slice_last_30_def by (rule answered_drop)
    with request_returned(1) [OF r [unfolded x]] assms show ?thesis
      by simp
  qed
qed

lemma recorded_requests_answered:
  assumes "\<forall>t h. store st t = Some h \<longrightarrow> answered 0 h"
  shows "\<forall>t h. store (submit_all env reqs st) t = Some h \<longrightarrow> answered 0 h"
  using assms
proof (induction reqs arbitrary: st)
  case Nil
  then show ?case by simp
next
  case (Cons req reqs)
  obtain question threadId where req: "req = (question, threadId)"
    by (cases req)
  have "\<forall>t h. store (snd (submitMessage env question threadId st)) t = Some h \<longrightarrow> answered 0 h"
  proof (cases rule: submitMessage_cases [of env question threadId st])
    case early
    with Cons.prems show ?thesis by simp
  next
    case (body sess tid st0)
    with Cons.prems request_keeps_answered [of st0 env question tid sess] show ?thesis
      by simp
  qed
  from Cons.IH [OF this] req show ?case by simp
qed

end
